theory Spec2Isabelle
  imports Main "HOL-Library.AList"
begin

section \<open>Python values\<close>

text \<open>
  The exceptions that the modelled functions raise or catch, each of them derived from
  \<open>Exception\<close>.  A function that can raise returns \<open>py_error + 'a\<close>, with
  \<open>Inl\<close> for the exception.
\<close>

datatype py_error = RequestException | InvalidVersion | KeyError | TypeError | ValueError
  | IndexError | OSError

text \<open>
  A Python \<open>dict\<close> is an association list in insertion order.  \<open>d[k] = v\<close> is
  \<open>AList.update k v d\<close> (the entry is replaced where the key is, or appended),
  \<open>d.get(k)\<close> is \<open>map_of d k\<close> and \<open>d.keys()\<close> is \<open>map fst d\<close>.
\<close>

type_synonym ('k, 'v) dict = "('k \<times> 'v) list"

text \<open>Truth value of an \<open>Optional[str]\<close>: \<open>None\<close> and the empty string are false.\<close>

definition truthy :: "string option \<Rightarrow> bool" where
  "truthy v = (case v of None \<Rightarrow> False | Some s \<Rightarrow> s \<noteq> [])"

text \<open>
  \<open>str.lower\<close> on ASCII text (package names are ASCII; a \<open>char\<close> is a byte, and
  bytes outside \<open>A\<close>..\<open>Z\<close> are kept).
\<close>

definition lower_char :: "char \<Rightarrow> char" where
  "lower_char c =
     (let n = (of_char c :: nat) in if 65 \<le> n \<and> n \<le> 90 then char_of (n + 32) else c)"

definition lower :: "string \<Rightarrow> string" where
  "lower s = map lower_char s"

definition startswith :: "string \<Rightarrow> string \<Rightarrow> bool" where
  "startswith s p = (take (length p) s = p)"

definition endswith :: "string \<Rightarrow> string \<Rightarrow> bool" where
  "endswith s p = (length p \<le> length s \<and> drop (length s - length p) s = p)"

section \<open>The world outside the program\<close>

text \<open>
  The virtual environment (the directory \<open>.venv\<close> of the project) is either absent or
  present with a content of type \<open>'e\<close>; the program never looks into the content itself.
\<close>

record 'e world =
  venv :: "'e option"

text \<open>
  \<open>subprocess.run(..., check=True)\<close> returns the captured standard output, raises
  \<open>CalledProcessError\<close> (carrying the captured standard error) or raises something else.
\<close>

datatype proc_result = Completed string | CalledProcessError string | ProcException string

text \<open>
  The three pip invocations of the program.  \<open>InstallRequirements ls\<close> stands for
  \<open>['install', '-r', path]\<close> where \<open>path\<close> names the transient manifest holding the
  lines \<open>ls\<close>.
\<close>

datatype pip_command = Install string | InstallRequirements "string list" | ListJson

text \<open>
  What \<open>json.loads\<close> followed by the comprehension
  \<open>{pkg['name']: pkg['version'] for pkg in packages}\<close> makes of pip's output: the text
  is not JSON, or it is JSON of another shape and the comprehension raises, or it is a list
  of name/version entries.
\<close>

datatype pip_listing = JSONDecodeError | Malformed py_error | Packages "(string \<times> string) list"

text \<open>
  A registry response, as far as the program reads it: the status code, the value of
  \<open>response.json()['info']['version']\<close> and the member names of the object
  \<open>response.json()['releases']\<close> in document order; either read can raise.
\<close>

record response =
  status_code :: nat
  info_version :: "py_error + string option"
  releases :: "py_error + string list"

text \<open>
  The external collaborators.  Each is a function of its arguments and of the virtual
  environment it runs on; \<open>'v\<close> is the type of parsed versions (\<open>packaging.version.Version\<close>).
  \<^item> \<open>rmtree_raises e\<close>: \<open>shutil.rmtree\<close> raises on the environment \<open>e\<close>, which
    then stays as it is; otherwise the environment is gone.
  \<^item> \<open>venv_create\<close>: \<open>venv.create\<close>, called where no environment is; it raises (no
    environment results) or yields the fresh environment.
  \<^item> \<open>pip\<close>, \<open>python\<close>: the two executables of the environment, run by
    \<open>subprocess.run\<close>.
  \<^item> \<open>os_walk\<close>: the directories of the project with their file names; the environment
    lies inside the project directory.
  \<^item> \<open>requests_get\<close>: \<open>requests.get\<close> on the registry's page of a package.
  \<^item> \<open>version_parse\<close>: \<open>packaging.version.parse\<close>; \<open>None\<close> is \<open>InvalidVersion\<close>.
\<close>

record ('e, 'v) collab =
  rmtree_raises :: "'e \<Rightarrow> bool"
  venv_create :: "py_error + 'e"
  pip :: "pip_command \<Rightarrow> 'e option \<Rightarrow> proc_result \<times> 'e option"
  python :: "string list \<Rightarrow> 'e option \<Rightarrow> proc_result \<times> 'e option"
  json_loads :: "string \<Rightarrow> pip_listing"
  os_walk :: "'e option \<Rightarrow> (string \<times> string list) list"
  requests_get :: "string \<Rightarrow> py_error + response"
  version_parse :: "string \<Rightarrow> 'v option"

section \<open>environment\_manager.py\<close>

definition create_virtual_environment ::
  "('e, 'v) collab \<Rightarrow> 'e world \<Rightarrow> bool \<times> 'e world" where
  "create_virtual_environment c w =
     (if (case venv w of None \<Rightarrow> False | Some e \<Rightarrow> rmtree_raises c e) then (False, w)
      else (case venv_create c of
              Inl err \<Rightarrow> (False, w\<lparr>venv := None\<rparr>)
            | Inr fresh \<Rightarrow> (True, w\<lparr>venv := Some fresh\<rparr>)))"

definition run_pip_command ::
  "('e, 'v) collab \<Rightarrow> pip_command \<Rightarrow> 'e world \<Rightarrow> (bool \<times> string) \<times> 'e world" where
  "run_pip_command c command w =
     (case pip c command (venv w) of
        (Completed out, s) \<Rightarrow> ((True, out), w\<lparr>venv := s\<rparr>)
      | (CalledProcessError err, s) \<Rightarrow> ((False, err), w\<lparr>venv := s\<rparr>)
      | (ProcException msg, s) \<Rightarrow> ((False, msg), w\<lparr>venv := s\<rparr>))"

definition install_package ::
  "('e, 'v) collab \<Rightarrow> string \<Rightarrow> string option \<Rightarrow> 'e world \<Rightarrow> bool \<times> 'e world" where
  "install_package c package_name version w =
     (let package_spec =
            (if truthy version then package_name @ ''=='' @ the version else package_name);
          ((success, output), w') = run_pip_command c (Install package_spec) w
      in (success, w'))"

definition requirement_line :: "string \<times> string option \<Rightarrow> string" where
  "requirement_line r =
     (case r of (package, version) \<Rightarrow>
        if truthy version then package @ ''=='' @ the version else package)"

text \<open>
  \<open>install_requirements\<close> writes the manifest into the directory of the
  environment: \<open>open\<close> raises where there is no environment, and nothing catches it here.
\<close>

definition install_requirements ::
  "('e, 'v) collab \<Rightarrow> (string, string option) dict \<Rightarrow> 'e world
     \<Rightarrow> (py_error + bool) \<times> 'e world" where
  "install_requirements c requirements w =
     (if venv w = None then (Inl OSError, w)
      else (let ((success, output), w') =
                  run_pip_command c (InstallRequirements (map requirement_line requirements)) w
            in (Inr success, w')))"

definition get_installed_packages ::
  "('e, 'v) collab \<Rightarrow> 'e world \<Rightarrow> (py_error + (string, string) dict) \<times> 'e world" where
  "get_installed_packages c w =
     (let ((success, output), w') = run_pip_command c ListJson w
      in if \<not> success then (Inr [], w')
         else (case json_loads c output of
                 JSONDecodeError \<Rightarrow> (Inr [], w')
               | Malformed err \<Rightarrow> (Inl err, w')
               | Packages ps \<Rightarrow> (Inr (fold (\<lambda>(n, v). AList.update n v) ps []), w')))"

text \<open>
  The loop of \<open>verify_installation\<close> over \<open>requirements.items()\<close>.  The membership test
  compares lower-cased names; \<open>installed[package]\<close> looks the name up as it is written and
  raises \<open>KeyError\<close> where that key is missing.
\<close>

fun verify_against ::
  "(string, string) dict \<Rightarrow> (string, string option) dict \<Rightarrow> py_error + bool" where
  "verify_against installed [] = Inr True"
| "verify_against installed ((package, version) # rest) =
     (if lower package \<notin> set (map (lower \<circ> fst) installed) then Inr False
      else if truthy version then
        (case map_of installed package of
           None \<Rightarrow> Inl KeyError
         | Some got \<Rightarrow> if got \<noteq> the version then Inr False
                       else verify_against installed rest)
      else verify_against installed rest)"

definition verify_installation ::
  "('e, 'v) collab \<Rightarrow> (string, string option) dict \<Rightarrow> 'e world
     \<Rightarrow> (py_error + bool) \<times> 'e world" where
  "verify_installation c requirements w =
     (case get_installed_packages c w of
        (Inl err, w') \<Rightarrow> (Inl err, w')
      | (Inr installed, w') \<Rightarrow> (verify_against installed requirements, w'))"

definition run_python_command ::
  "('e, 'v) collab \<Rightarrow> string list \<Rightarrow> 'e world \<Rightarrow> (bool \<times> string) \<times> 'e world" where
  "run_python_command c command w =
     (case python c command (venv w) of
        (Completed out, s) \<Rightarrow> ((True, out), w\<lparr>venv := s\<rparr>)
      | (CalledProcessError err, s) \<Rightarrow> ((False, err), w\<lparr>venv := s\<rparr>)
      | (ProcException msg, s) \<Rightarrow> ((False, msg), w\<lparr>venv := s\<rparr>))"

section \<open>test\_discovery.py\<close>

definition is_test_file :: "string \<Rightarrow> bool" where
  "is_test_file filename =
     (startswith filename ''test_'' \<and> endswith filename ''.py''
      \<and> \<not> startswith filename ''__'')"

text \<open>\<open>os.path.join\<close> of a directory and a file name.\<close>

definition path_join :: "string \<Rightarrow> string \<Rightarrow> string" where
  "path_join root file =
     (if startswith file ''/'' then file
      else if root = [] \<or> endswith root ''/'' then root @ file
      else root @ ''/'' @ file)"

definition find_test_files :: "('e, 'v) collab \<Rightarrow> 'e world \<Rightarrow> string list" where
  "find_test_files c w =
     concat (map (\<lambda>(root, files). map (path_join root) (filter is_test_file files))
                 (os_walk c (venv w)))"

section \<open>package\_manager.py\<close>

text \<open>Whitespace as \<open>str.strip\<close> and \<open>str.split\<close> see it, on ASCII text.\<close>

definition is_space :: "char \<Rightarrow> bool" where
  "is_space c = ((of_char c :: nat) \<in> {9, 10, 11, 12, 13, 28, 29, 30, 31, 32})"

definition strip :: "string \<Rightarrow> string" where
  "strip s = rev (dropWhile is_space (rev (dropWhile is_space s)))"

text \<open>\<open>sep in line\<close> and \<open>line.split(sep)\<close> for a separator \<open>sep\<close> of two characters.\<close>

fun contains_pair :: "char \<Rightarrow> char \<Rightarrow> string \<Rightarrow> bool" where
  "contains_pair a b (x # y # rest) = ((x = a \<and> y = b) \<or> contains_pair a b (y # rest))"
| "contains_pair a b rest = False"

fun split_pair :: "char \<Rightarrow> char \<Rightarrow> string \<Rightarrow> string \<Rightarrow> string list" where
  "split_pair a b part (x # y # rest) =
     (if x = a \<and> y = b then rev part # split_pair a b [] rest
      else split_pair a b (x # part) (y # rest))"
| "split_pair a b part [x] = [rev (x # part)]"
| "split_pair a b part [] = [rev part]"

text \<open>The characters that \<open>re.sub(r'[^a-zA-Z0-9-_.]', '', name)\<close> keeps.\<close>

definition name_char :: "char \<Rightarrow> bool" where
  "name_char c =
     (let n = (of_char c :: nat)
      in (97 \<le> n \<and> n \<le> 122) \<or> (65 \<le> n \<and> n \<le> 90) \<or> (48 \<le> n \<and> n \<le> 57)
         \<or> c = CHR ''-'' \<or> c = CHR ''_'' \<or> c = CHR ''.'')"

text \<open>
  One requirement line of \<open>parse_requirements_txt\<close>, already stripped: the name and the
  version it puts into \<open>packages\<close>.  \<open>name, ver = line.split(sep)\<close> raises
  \<open>ValueError\<close> unless the separator occurs exactly once; \<open>line.split()[0]\<close> is the
  first word of the line.
\<close>

definition parse_requirement :: "string \<Rightarrow> py_error + (string \<times> string option)" where
  "parse_requirement line =
     (case (if contains_pair (CHR ''>'') (CHR ''='') line then
              (case split_pair (CHR ''>'') (CHR ''='') [] line of
                 [n, v] \<Rightarrow> Inr (n, Some v)
               | parts \<Rightarrow> Inl ValueError)
            else if contains_pair (CHR ''='') (CHR ''='') line then
              (case split_pair (CHR ''='') (CHR ''='') [] line of
                 [n, v] \<Rightarrow> Inr (n, Some v)
               | parts \<Rightarrow> Inl ValueError)
            else (case dropWhile is_space line of
                    [] \<Rightarrow> Inl IndexError
                  | word \<Rightarrow> Inr (takeWhile (\<lambda>c. \<not> is_space c) word, None))) of
        Inl err \<Rightarrow> Inl err
      | Inr (n, ver) \<Rightarrow>
          Inr (strip (filter name_char n), if truthy ver then Some (strip (the ver)) else None))"

text \<open>The loop of \<open>parse_requirements_txt\<close> over the lines of the file.\<close>

fun parse_lines ::
  "string list \<Rightarrow> (string, string option) dict \<Rightarrow> py_error + (string, string option) dict" where
  "parse_lines [] packages = Inr packages"
| "parse_lines (raw # rest) packages =
     (let line = strip raw
      in if line \<noteq> [] \<and> \<not> startswith line ''#'' then
           (case parse_requirement line of
              Inl err \<Rightarrow> Inl err
            | Inr (n, ver) \<Rightarrow> parse_lines rest (AList.update n ver packages))
         else parse_lines rest packages)"

definition parse_requirements_txt ::
  "string list \<Rightarrow> py_error + (string, string option) dict" where
  "parse_requirements_txt lines = parse_lines lines []"

definition registry_url :: "string \<Rightarrow> string" where
  "registry_url package_name = ''https://pypi.org/pypi/'' @ package_name @ ''/json''"

text \<open>\<open>get_latest_version\<close> catches \<open>requests.RequestException\<close> and nothing else.\<close>

definition get_latest_version ::
  "('e, 'v) collab \<Rightarrow> string \<Rightarrow> py_error + string option" where
  "get_latest_version c package_name =
     (case (case requests_get c (registry_url package_name) of
              Inl err \<Rightarrow> Inl err
            | Inr r \<Rightarrow> if status_code r = 200 then info_version r else Inr None) of
        Inl err \<Rightarrow> if err = RequestException then Inr None else Inl err
      | Inr v \<Rightarrow> Inr v)"

text \<open>
  The keys of the dict that \<open>json\<close> builds from an object: each name once, at the place of
  its first occurrence.
\<close>

definition dict_keys :: "string list \<Rightarrow> string list" where
  "dict_keys names = fold (\<lambda>k ks. if k \<in> set ks then ks else ks @ [k]) names []"

text \<open>
  \<open>all_versions.sort(key=lambda x: version.parse(x))\<close>: the keys are computed first (one
  invalid version raises), then the list is sorted stably.
\<close>

definition sort_versions ::
  "(string \<Rightarrow> 'v::linorder option) \<Rightarrow> string list \<Rightarrow> py_error + string list" where
  "sort_versions parse vs =
     (if \<exists>v \<in> set vs. parse v = None then Inl InvalidVersion
      else Inr (sort_key (\<lambda>v. the (parse v)) vs))"

text \<open>
  The generator \<open>(i for i, v in enumerate(all_versions) if version.parse(v) >=
  version.parse(target))\<close> handed to \<open>next\<close>: the index of the first version at least
  the target, \<open>None\<close> where \<open>next\<close> falls back on its default.  Both strings are parsed
  at each element looked at, so the target is not parsed at all on the empty list.
\<close>

fun first_index_at_least ::
  "(string \<Rightarrow> 'v::linorder option) \<Rightarrow> string list \<Rightarrow> string \<Rightarrow> py_error + nat option" where
  "first_index_at_least parse [] target = Inr None"
| "first_index_at_least parse (v # vs) target =
     (case parse v of
        None \<Rightarrow> Inl InvalidVersion
      | Some k \<Rightarrow>
          (case parse target of
             None \<Rightarrow> Inl InvalidVersion
           | Some t \<Rightarrow>
               if t \<le> k then Inr (Some 0)
               else (case first_index_at_least parse vs target of
                       Inl err \<Rightarrow> Inl err
                     | Inr None \<Rightarrow> Inr None
                     | Inr (Some i) \<Rightarrow> Inr (Some (Suc i)))))"

text \<open>The body of the \<open>try\<close> of \<open>get_version_range\<close>; the slice is \<open>all_versions[current_idx:latest_idx + 1]\<close>.\<close>

definition version_range_body ::
  "('e, 'v::linorder) collab \<Rightarrow> string \<Rightarrow> string \<Rightarrow> string \<Rightarrow> py_error + string list" where
  "version_range_body c name current latest =
     (case requests_get c (registry_url name) of
        Inl err \<Rightarrow> Inl err
      | Inr r \<Rightarrow>
          if status_code r \<noteq> 200 then Inr []
          else (case releases r of
                  Inl err \<Rightarrow> Inl err
                | Inr names \<Rightarrow>
                    (case sort_versions (version_parse c) (dict_keys names) of
                       Inl err \<Rightarrow> Inl err
                     | Inr all_versions \<Rightarrow>
                         (case first_index_at_least (version_parse c) all_versions current of
                            Inl err \<Rightarrow> Inl err
                          | Inr found_current \<Rightarrow>
                              (case first_index_at_least (version_parse c) all_versions latest of
                                 Inl err \<Rightarrow> Inl err
                               | Inr found_latest \<Rightarrow>
                                   (let current_idx =
                                          (case found_current of None \<Rightarrow> 0 | Some i \<Rightarrow> i);
                                        latest_idx =
                                          (case found_latest of None \<Rightarrow> length all_versions
                                           | Some i \<Rightarrow> i)
                                    in Inr (drop current_idx
                                              (take (latest_idx + 1) all_versions))))))))"

text \<open>
  \<open>get_version_range\<close> catches \<open>requests.RequestException\<close> and
  \<open>version.InvalidVersion\<close> and nothing else.
\<close>

definition get_version_range ::
  "('e, 'v::linorder) collab \<Rightarrow> string \<Rightarrow> string \<Rightarrow> string \<Rightarrow> py_error + string list" where
  "get_version_range c name current latest =
     (case version_range_body c name current latest of
        Inl err \<Rightarrow> if err = RequestException \<or> err = InvalidVersion then Inr [] else Inl err
      | Inr versions \<Rightarrow> Inr versions)"

section \<open>update\_tester.py\<close>

text \<open>
  The methods of \<open>UpdateTester\<close> take the collaborators, the mapping
  \<open>package_manager.current_packages\<close> (which none of them changes) and the world, and
  return their result with the world they leave.  Log lines and printed messages are left
  out: nothing that is returned depends on them.
\<close>

record update_result =
  success :: bool
  old_version :: string
  new_version :: string
  error_message :: "string option"
  test_output :: "string option"

record package_update_status =
  package_name :: string
  current_version :: string
  target_version :: string
  compatible_version :: "string option"
  tested_versions :: "string list"
  failed_versions :: "(string, string option) dict"

text \<open>
  \<open>setup_test_environment\<close>: every exception of the three steps is caught and turned
  into \<open>False\<close>.
\<close>

definition setup_test_environment ::
  "('e, 'v) collab \<Rightarrow> (string, string option) dict \<Rightarrow> 'e world \<Rightarrow> bool \<times> 'e world" where
  "setup_test_environment c current_packages w =
     (case create_virtual_environment c w of
        (False, w1) \<Rightarrow> (False, w1)
      | (True, w1) \<Rightarrow>
          (case install_requirements c current_packages w1 of
             (Inl err, w2) \<Rightarrow> (False, w2)
           | (Inr False, w2) \<Rightarrow> (False, w2)
           | (Inr True, w2) \<Rightarrow>
               (case verify_installation c current_packages w2 of
                  (Inl err, w3) \<Rightarrow> (False, w3)
                | (Inr False, w3) \<Rightarrow> (False, w3)
                | (Inr True, w3) \<Rightarrow> (True, w3))))"

definition run_tests :: "('e, 'v) collab \<Rightarrow> 'e world \<Rightarrow> (bool \<times> string) \<times> 'e world" where
  "run_tests c w =
     (let test_files = find_test_files c w
      in if test_files = [] then ((False, ''No test files found''), w)
         else run_python_command c ([''-m'', ''pytest''] @ test_files) w)"

text \<open>
  \<open>current_packages.get(package_name)\<close>: \<open>None\<close> for a missing name and for a name
  mapped to \<open>None\<close>.
\<close>

definition dict_get :: "(string, string option) dict \<Rightarrow> string \<Rightarrow> string option" where
  "dict_get d k = (case map_of d k of None \<Rightarrow> None | Some v \<Rightarrow> v)"

text \<open>
  \<open>test_package_update\<close>.  Nothing that it calls inside its \<open>try\<close> raises
  (\<open>run_pip_command\<close> and \<open>run_python_command\<close> catch every exception), so its
  \<open>except\<close> branch has no counterpart here.
\<close>

definition test_package_update ::
  "('e, 'v) collab \<Rightarrow> (string, string option) dict \<Rightarrow> string \<Rightarrow> string \<Rightarrow> 'e world
     \<Rightarrow> update_result \<times> 'e world" where
  "test_package_update c current_packages name version w =
     (let current = dict_get current_packages name
      in if \<not> truthy current then
           (\<lparr>success = False, old_version = ''unknown'', new_version = version,
             error_message = Some (''Package '' @ name @ '' not found in current packages''),
             test_output = None\<rparr>, w)
         else (case install_package c name (Some version) w of
                 (False, w1) \<Rightarrow>
                   (\<lparr>success = False, old_version = the current, new_version = version,
                     error_message = Some (''Failed to install '' @ name @ ''=='' @ version),
                     test_output = None\<rparr>, w1)
               | (True, w1) \<Rightarrow>
                   (case run_tests c w1 of
                      ((False, output), w2) \<Rightarrow>
                        (\<lparr>success = False, old_version = the current, new_version = version,
                          error_message = Some ''Tests failed'', test_output = Some output\<rparr>,
                         w2)
                    | ((True, output), w2) \<Rightarrow>
                        (\<lparr>success = True, old_version = the current, new_version = version,
                          error_message = None, test_output = Some output\<rparr>, w2))))"

text \<open>
  The loop of \<open>find_compatible_update\<close> over the candidate versions, with its three
  variables \<open>tested_versions\<close>, \<open>failed_versions\<close> and \<open>compatible_version\<close>.  The
  result of \<open>setup_test_environment\<close> is not looked at.
\<close>

fun test_each_version ::
  "('e, 'v) collab \<Rightarrow> (string, string option) dict \<Rightarrow> string \<Rightarrow> string \<Rightarrow> string list
     \<Rightarrow> string list \<times> (string, string option) dict \<times> string option \<Rightarrow> 'e world
     \<Rightarrow> (string list \<times> (string, string option) dict \<times> string option) \<times> 'e world" where
  "test_each_version c cp name current [] acc w = (acc, w)"
| "test_each_version c cp name current (version # versions) (tested, failed, compatible) w =
     (if version = current then
        test_each_version c cp name current versions (tested, failed, compatible) w
      else
        (let (reset, w1) = setup_test_environment c cp w;
             (result, w2) = test_package_update c cp name version w1
         in if success result then
              test_each_version c cp name current versions
                (tested @ [version], failed, Some version) w2
            else
              test_each_version c cp name current versions
                (tested @ [version], AList.update version (error_message result) failed,
                 compatible) w2))"

definition find_compatible_update ::
  "('e, 'v::linorder) collab \<Rightarrow> (string, string option) dict \<Rightarrow> string \<Rightarrow> 'e world
     \<Rightarrow> (py_error + package_update_status) \<times> 'e world" where
  "find_compatible_update c cp name w =
     (let current = dict_get cp name
      in if \<not> truthy current then
           (Inr \<lparr>package_name = name, current_version = ''unknown'',
                 target_version = ''unknown'', compatible_version = None,
                 tested_versions = [], failed_versions = []\<rparr>, w)
         else (case get_latest_version c name of
                 Inl err \<Rightarrow> (Inl err, w)
               | Inr latest \<Rightarrow>
                   if \<not> truthy latest then
                     (Inr \<lparr>package_name = name, current_version = the current,
                           target_version = ''unknown'', compatible_version = None,
                           tested_versions = [], failed_versions = []\<rparr>, w)
                   else (case get_version_range c name (the current) (the latest) of
                           Inl err \<Rightarrow> (Inl err, w)
                         | Inr versions \<Rightarrow>
                             (case test_each_version c cp name (the current) versions
                                     ([], [], None) w of
                                ((tested, failed, compatible), w') \<Rightarrow>
                                  (Inr \<lparr>package_name = name, current_version = the current,
                                        target_version = the latest,
                                        compatible_version = compatible,
                                        tested_versions = tested,
                                        failed_versions = failed\<rparr>, w')))))"

text \<open>
  The loop of \<open>update_all_packages\<close> over the names of \<open>current_packages\<close>; an
  exception out of \<open>find_compatible_update\<close> ends it.
\<close>

fun update_each_package ::
  "('e, 'v::linorder) collab \<Rightarrow> (string, string option) dict \<Rightarrow> string list
     \<Rightarrow> (string, package_update_status) dict \<Rightarrow> 'e world
     \<Rightarrow> (py_error + (string, package_update_status) dict) \<times> 'e world" where
  "update_each_package c cp [] results w = (Inr results, w)"
| "update_each_package c cp (name # names) results w =
     (case find_compatible_update c cp name w of
        (Inl err, w') \<Rightarrow> (Inl err, w')
      | (Inr status, w') \<Rightarrow>
          update_each_package c cp names (AList.update name status results) w')"

definition update_all_packages ::
  "('e, 'v::linorder) collab \<Rightarrow> (string, string option) dict \<Rightarrow> 'e world
     \<Rightarrow> (py_error + (string, package_update_status) dict) \<times> 'e world" where
  "update_all_packages c cp w =
     (case setup_test_environment c cp w of
        (False, w') \<Rightarrow> (Inr [], w')
      | (True, w') \<Rightarrow> update_each_package c cp (map fst cp) [] w')"

section \<open>Leaving by an exit of the interpreter\<close>

text \<open>
  Every value of \<open>py_error\<close> is an exception derived from \<open>Exception\<close>, which
  \<open>except Exception\<close> catches.  \<open>venv.create(..., with_pip=True)\<close> can also end in
  \<open>sys.exit\<close> (it does on a host without \<open>ensurepip\<close>), possibly after it has
  written a part of the environment.  \<open>SystemExit\<close> is not derived from
  \<open>Exception\<close>: the clauses of \<open>create_virtual_environment\<close> and of
  \<open>setup_test_environment\<close> let it pass, and \<open>find_compatible_update\<close> and
  \<open>update_all_packages\<close> have no clause of their own.  The functions above describe the
  runs in which \<open>venv.create\<close> does not exit.  The functions of this section describe
  all runs: \<open>exits\<close> is \<open>None\<close> where \<open>venv.create\<close> does not exit, and
  \<open>Some leftover\<close> where it exits and leaves \<open>leftover\<close> in the place of the
  environment.
\<close>

datatype raised = Exception py_error | SystemExit

definition create_virtual_environment_exit ::
  "('e, 'v) collab \<Rightarrow> 'e option option \<Rightarrow> 'e world \<Rightarrow> (raised + bool) \<times> 'e world" where
  "create_virtual_environment_exit c exits w =
     (if (case venv w of None \<Rightarrow> False | Some e \<Rightarrow> rmtree_raises c e) then (Inr False, w)
      else (case exits of
              Some leftover \<Rightarrow> (Inl SystemExit, w\<lparr>venv := leftover\<rparr>)
            | None \<Rightarrow>
                (case venv_create c of
                   Inl err \<Rightarrow> (Inr False, w\<lparr>venv := None\<rparr>)
                 | Inr fresh \<Rightarrow> (Inr True, w\<lparr>venv := Some fresh\<rparr>))))"

definition setup_test_environment_exit ::
  "('e, 'v) collab \<Rightarrow> 'e option option \<Rightarrow> (string, string option) dict \<Rightarrow> 'e world
     \<Rightarrow> (raised + bool) \<times> 'e world" where
  "setup_test_environment_exit c exits current_packages w =
     (case create_virtual_environment_exit c exits w of
        (Inl (Exception err), w1) \<Rightarrow> (Inr False, w1)
      | (Inl SystemExit, w1) \<Rightarrow> (Inl SystemExit, w1)
      | (Inr False, w1) \<Rightarrow> (Inr False, w1)
      | (Inr True, w1) \<Rightarrow>
          (case install_requirements c current_packages w1 of
             (Inl err, w2) \<Rightarrow> (Inr False, w2)
           | (Inr False, w2) \<Rightarrow> (Inr False, w2)
           | (Inr True, w2) \<Rightarrow>
               (case verify_installation c current_packages w2 of
                  (Inl err, w3) \<Rightarrow> (Inr False, w3)
                | (Inr False, w3) \<Rightarrow> (Inr False, w3)
                | (Inr True, w3) \<Rightarrow> (Inr True, w3))))"

fun test_each_version_exit ::
  "('e, 'v) collab \<Rightarrow> 'e option option \<Rightarrow> (string, string option) dict \<Rightarrow> string
     \<Rightarrow> string \<Rightarrow> string list
     \<Rightarrow> string list \<times> (string, string option) dict \<times> string option \<Rightarrow> 'e world
     \<Rightarrow> (raised + string list \<times> (string, string option) dict \<times> string option)
        \<times> 'e world" where
  "test_each_version_exit c exits cp name current [] acc w = (Inr acc, w)"
| "test_each_version_exit c exits cp name current (version # versions)
     (tested, failed, compatible) w =
     (if version = current then
        test_each_version_exit c exits cp name current versions (tested, failed, compatible) w
      else
        (case setup_test_environment_exit c exits cp w of
           (Inl r, w1) \<Rightarrow> (Inl r, w1)
         | (Inr reset, w1) \<Rightarrow>
             (let (result, w2) = test_package_update c cp name version w1
              in if success result then
                   test_each_version_exit c exits cp name current versions
                     (tested @ [version], failed, Some version) w2
                 else
                   test_each_version_exit c exits cp name current versions
                     (tested @ [version],
                      AList.update version (error_message result) failed, compatible) w2)))"

definition find_compatible_update_exit ::
  "('e, 'v::linorder) collab \<Rightarrow> 'e option option \<Rightarrow> (string, string option) dict \<Rightarrow> string
     \<Rightarrow> 'e world \<Rightarrow> (raised + package_update_status) \<times> 'e world" where
  "find_compatible_update_exit c exits cp name w =
     (let current = dict_get cp name
      in if \<not> truthy current then
           (Inr \<lparr>package_name = name, current_version = ''unknown'',
                 target_version = ''unknown'', compatible_version = None,
                 tested_versions = [], failed_versions = []\<rparr>, w)
         else (case get_latest_version c name of
                 Inl err \<Rightarrow> (Inl (Exception err), w)
               | Inr latest \<Rightarrow>
                   if \<not> truthy latest then
                     (Inr \<lparr>package_name = name, current_version = the current,
                           target_version = ''unknown'', compatible_version = None,
                           tested_versions = [], failed_versions = []\<rparr>, w)
                   else (case get_version_range c name (the current) (the latest) of
                           Inl err \<Rightarrow> (Inl (Exception err), w)
                         | Inr versions \<Rightarrow>
                             (case test_each_version_exit c exits cp name (the current)
                                     versions ([], [], None) w of
                                (Inl r, w') \<Rightarrow> (Inl r, w')
                              | (Inr (tested, failed, compatible), w') \<Rightarrow>
                                  (Inr \<lparr>package_name = name, current_version = the current,
                                        target_version = the latest,
                                        compatible_version = compatible,
                                        tested_versions = tested,
                                        failed_versions = failed\<rparr>, w')))))"

fun update_each_package_exit ::
  "('e, 'v::linorder) collab \<Rightarrow> 'e option option \<Rightarrow> (string, string option) dict
     \<Rightarrow> string list \<Rightarrow> (string, package_update_status) dict \<Rightarrow> 'e world
     \<Rightarrow> (raised + (string, package_update_status) dict) \<times> 'e world" where
  "update_each_package_exit c exits cp [] results w = (Inr results, w)"
| "update_each_package_exit c exits cp (name # names) results w =
     (case find_compatible_update_exit c exits cp name w of
        (Inl r, w') \<Rightarrow> (Inl r, w')
      | (Inr status, w') \<Rightarrow>
          update_each_package_exit c exits cp names (AList.update name status results) w')"

definition update_all_packages_exit ::
  "('e, 'v::linorder) collab \<Rightarrow> 'e option option \<Rightarrow> (string, string option) dict
     \<Rightarrow> 'e world \<Rightarrow> (raised + (string, package_update_status) dict) \<times> 'e world" where
  "update_all_packages_exit c exits cp w =
     (case setup_test_environment_exit c exits cp w of
        (Inl r, w') \<Rightarrow> (Inl r, w')
      | (Inr False, w') \<Rightarrow> (Inr [], w')
      | (Inr True, w') \<Rightarrow> update_each_package_exit c exits cp (map fst cp) [] w')"

section \<open>The walk over the candidates, observed step by step\<close>

text \<open>
  What happens at each candidate that the loop of \<open>find_compatible_update\<close> does not
  skip: whether the reset of the environment succeeded, whether the installation of the
  candidate succeeded, whether the test run after it succeeded, and the
  \<open>UpdateResult\<close> that \<open>test_package_update\<close> returned.  The environment is threaded
  through the steps exactly as the loop threads it.
\<close>

record step =
  candidate :: string
  reset_ok :: bool
  install_ok :: bool
  tests_ok :: bool
  outcome :: update_result

fun walk ::
  "('e, 'v) collab \<Rightarrow> (string, string option) dict \<Rightarrow> string \<Rightarrow> string \<Rightarrow> string list
     \<Rightarrow> 'e world \<Rightarrow> step list" where
  "walk c cp name current [] w = []"
| "walk c cp name current (version # versions) w =
     (if version = current then walk c cp name current versions w
      else
        (let (reset, w1) = setup_test_environment c cp w;
             (installed, w1') = install_package c name (Some version) w1;
             (result, w2) = test_package_update c cp name version w1
         in \<lparr>candidate = version, reset_ok = reset, install_ok = installed,
              tests_ok = fst (fst (run_tests c w1')), outcome = result\<rparr>
            # walk c cp name current versions w2))"

definition passes :: "step \<Rightarrow> bool" where
  "passes s = (install_ok s \<and> tests_ok s)"

text \<open>The candidates that passed, in walk order.\<close>

definition passing_candidates ::
  "('e, 'v) collab \<Rightarrow> (string, string option) dict \<Rightarrow> string \<Rightarrow> string \<Rightarrow> string list
     \<Rightarrow> 'e world \<Rightarrow> string list" where
  "passing_candidates c cp name current versions w =
     map candidate (filter passes (walk c cp name current versions w))"

text \<open>
  A registry that keeps to what the two lookups catch: the request raises nothing but
  \<open>RequestException\<close>, and on status 200 reading the latest version raises nothing but
  \<open>RequestException\<close> and reading the release names nothing but \<open>RequestException\<close> or
  \<open>InvalidVersion\<close>.
\<close>

definition registry_keeps_contract :: "('e, 'v) collab \<Rightarrow> string \<Rightarrow> bool" where
  "registry_keeps_contract c name =
     (case requests_get c (registry_url name) of
        Inl err \<Rightarrow> err = RequestException
      | Inr r \<Rightarrow>
          status_code r \<noteq> 200
          \<or> ((case info_version r of Inl err \<Rightarrow> err = RequestException | Inr v \<Rightarrow> True)
             \<and> (case releases r of
                  Inl err \<Rightarrow> err = RequestException \<or> err = InvalidVersion
                | Inr names \<Rightarrow> True)))"

section \<open>A project to run the program on\<close>

text \<open>
  One package, \<open>requests\<close>, pinned to 1.0.0; the registry knows 0.9.0 to 1.3.0, the
  latest being 1.3.0; every installation works, and the project's one test file fails
  when \<open>requests\<close> 1.2.0 is installed and passes otherwise.  The content of the environment is the
  list of the requirement strings installed so far, the newest first.
\<close>

definition requests_only :: "(string, string option) dict" where
  "requests_only = [(''requests'', Some ''1.0.0'')]"

definition demo :: "(string list, nat) collab" where
  "demo =
     \<lparr>rmtree_raises = (\<lambda>e. False),
      venv_create = Inr [],
      pip = (\<lambda>command s.
               case s of
                 None \<Rightarrow> (ProcException ''No such file or directory'', None)
               | Some e \<Rightarrow>
                   (case command of
                      Install spec \<Rightarrow> (Completed ''Successfully installed'', Some (spec # e))
                    | InstallRequirements ls \<Rightarrow>
                        (Completed ''Successfully installed'', Some (rev ls @ e))
                    | ListJson \<Rightarrow> (Completed ''listing'', Some e))),
      python = (\<lambda>command s.
                  case s of
                    None \<Rightarrow> (ProcException ''No such file or directory'', None)
                  | Some e \<Rightarrow>
                      if ''requests==1.2.0'' \<in> set e then (CalledProcessError ''1 failed'', s)
                      else (Completed ''1 passed'', s)),
      json_loads = (\<lambda>out. Packages [(''requests'', ''1.0.0'')]),
      os_walk = (\<lambda>s. [(''/proj/tests'', [''test_sample.py'', ''helpers.py''])]),
      requests_get = (\<lambda>url.
         Inr \<lparr>status_code = 200, info_version = Inr (Some ''1.3.0''),
              releases = Inr [''1.1.0'', ''1.0.0'', ''1.3.0'', ''1.2.0'', ''0.9.0'']\<rparr>),
      version_parse =
        map_of [(''0.9.0'', 90), (''1.0.0'', 100), (''1.1.0'', 110), (''1.2.0'', 120),
                (''1.3.0'', 130)]\<rparr>"

text \<open>The same project where pip lists \<open>Flask\<close> 2.0.0 as the one installed package.\<close>

definition flask_listed :: "(string list, nat) collab" where
  "flask_listed = demo\<lparr>json_loads := (\<lambda>out. Packages [(''Flask'', ''2.0.0'')])\<rparr>"

text \<open>
  The same project where pip lists \<open>requests\<close> 0.9.0 as installed, so that the
  verification in \<open>setup_test_environment\<close> fails at every reset.
\<close>

definition stale_listing :: "(string list, nat) collab" where
  "stale_listing = demo\<lparr>json_loads := (\<lambda>out. Packages [(''requests'', ''0.9.0'')])\<rparr>"

text \<open>The same project without any test file.\<close>

definition no_tests :: "(string list, nat) collab" where
  "no_tests = demo\<lparr>os_walk := (\<lambda>s. [(''/proj'', [''setup.py'', ''requirements.txt''])])\<rparr>"

text \<open>
  A project with the two packages \<open>requests\<close> and \<open>flask\<close>, both installed as pinned,
  where the registry answers with status 200 and, for \<open>requests\<close>, a body without the
  members the program reads.
\<close>

definition two_packages :: "(string, string option) dict" where
  "two_packages = [(''requests'', Some ''1.0.0''), (''flask'', Some ''2.0.0'')]"

definition odd_registry :: "(string list, nat) collab" where
  "odd_registry =
     demo\<lparr>json_loads := (\<lambda>out. Packages [(''requests'', ''1.0.0''), (''flask'', ''2.0.0'')]),
          requests_get := (\<lambda>url.
            if url = registry_url ''requests'' then
              Inr \<lparr>status_code = 200, info_version = Inl KeyError, releases = Inl KeyError\<rparr>
            else
              Inr \<lparr>status_code = 200, info_version = Inr (Some ''2.0.0''),
                   releases = Inr [''2.0.0'']\<rparr>)\<rparr>"

section \<open>The loop and the walk\<close>

lemma test_package_update_success:
  assumes "truthy (dict_get cp name)"
  shows "success (fst (test_package_update c cp name v w)) =
           (fst (install_package c name (Some v) w)
            \<and> fst (fst (run_tests c (snd (install_package c name (Some v) w)))))"
  using assms by (auto simp: test_package_update_def Let_def split: prod.splits bool.splits)

lemma test_package_update_message:
  assumes "truthy (dict_get cp name)"
  shows "error_message (fst (test_package_update c cp name v w)) =
           (if \<not> fst (install_package c name (Some v) w)
              then Some (''Failed to install '' @ name @ ''=='' @ v)
            else if \<not> fst (fst (run_tests c (snd (install_package c name (Some v) w))))
              then Some ''Tests failed''
            else None)"
  using assms by (auto simp: test_package_update_def Let_def split: prod.splits bool.splits)

lemma walk_candidates:
  "map candidate (walk c cp name current versions w) = filter (\<lambda>v. v \<noteq> current) versions"
  by (induction versions arbitrary: w) (simp_all add: Let_def split: prod.splits)

lemma walk_outcome:
  assumes "truthy (dict_get cp name)" and "s \<in> set (walk c cp name current versions w)"
  shows "success (outcome s) = passes s
         \<and> error_message (outcome s) =
             (if \<not> install_ok s then Some (''Failed to install '' @ name @ ''=='' @ candidate s)
              else if \<not> tests_ok s then Some ''Tests failed'' else None)"
  using assms(2)
proof (induction versions arbitrary: w)
  case Nil
  then show ?case by simp
next
  case (Cons v vs)
  show ?case
  proof (cases "v = current")
    case True
    with Cons show ?thesis by simp
  next
    case False
    obtain r w1 where r: "setup_test_environment c cp w = (r, w1)"
      by (cases "setup_test_environment c cp w")
    obtain i w1' where i: "install_package c name (Some v) w1 = (i, w1')"
      by (cases "install_package c name (Some v) w1")
    obtain res w2 where res: "test_package_update c cp name v w1 = (res, w2)"
      by (cases "test_package_update c cp name v w1")
    from Cons.prems False r i res
    consider "s = \<lparr>candidate = v, reset_ok = r, install_ok = i,
                 tests_ok = fst (fst (run_tests c w1')), outcome = res\<rparr>"
      | "s \<in> set (walk c cp name current vs w2)"
      by auto
    then show ?thesis
    proof cases
      case 1
      have "success res = (i \<and> fst (fst (run_tests c w1')))"
        using test_package_update_success [OF assms(1), of c v w1] i res by simp
      moreover have "error_message res =
          (if \<not> i then Some (''Failed to install '' @ name @ ''=='' @ v)
           else if \<not> fst (fst (run_tests c w1')) then Some ''Tests failed'' else None)"
        using test_package_update_message [OF assms(1), of c v w1] i res by simp
      ultimately show ?thesis using 1 by (simp add: passes_def)
    next
      case 2
      then show ?thesis by (rule Cons.IH)
    qed
  qed
qed

lemma loop_as_walk:
  "fst (test_each_version c cp name current versions (tested, failed, compatible) w) =
     (let steps = walk c cp name current versions w
      in (tested @ map candidate steps,
          fold (\<lambda>s f. AList.update (candidate s) (error_message (outcome s)) f)
               (filter (\<lambda>s. \<not> success (outcome s)) steps) failed,
          (case filter (\<lambda>s. success (outcome s)) steps of
             [] \<Rightarrow> compatible
           | p # ps \<Rightarrow> Some (candidate (last (p # ps))))))"
proof (induction versions arbitrary: tested failed compatible w)
  case Nil
  show ?case by simp
next
  case (Cons v vs)
  show ?case
  proof (cases "v = current")
    case True
    then show ?thesis using Cons.IH by simp
  next
    case False
    obtain r w1 where r: "setup_test_environment c cp w = (r, w1)"
      by (cases "setup_test_environment c cp w")
    obtain i w1' where i: "install_package c name (Some v) w1 = (i, w1')"
      by (cases "install_package c name (Some v) w1")
    obtain res w2 where res: "test_package_update c cp name v w1 = (res, w2)"
      by (cases "test_package_update c cp name v w1")
    show ?thesis
    proof (cases "success res")
      case True
      then show ?thesis using False r i res Cons.IH [of "tested @ [v]" failed "Some v" w2]
        by (simp add: Let_def split: list.splits)
    next
      case f: False
      then show ?thesis using False r i res
          Cons.IH [of "tested @ [v]" "AList.update v (error_message res) failed" compatible w2]
        by (simp add: Let_def split: list.splits)
    qed
  qed
qed

section \<open>The candidate list\<close>

lemma dict_keys_fold_distinct:
  "distinct acc \<Longrightarrow> distinct (fold (\<lambda>k ks. if k \<in> set ks then ks else ks @ [k]) names acc)"
  by (induction names arbitrary: acc) simp_all

lemma dict_keys_distinct: "distinct (dict_keys names)"
  by (simp add: dict_keys_def dict_keys_fold_distinct)

lemma sort_versions_result:
  assumes "sort_versions parse vs = Inr sorted_vs"
  shows "sorted (map (\<lambda>v. the (parse v)) sorted_vs) \<and> distinct sorted_vs = distinct vs
         \<and> (\<forall>v \<in> set sorted_vs. parse v \<noteq> None)"
  using assms by (auto simp: sort_versions_def split: if_splits)

lemma sorted_slice:
  assumes "sorted (map f xs)"
  shows "sorted (map f (drop i (take j xs)))"
proof -
  have "map f (drop i (take j xs)) = drop i (take j (map f xs))"
    by (simp add: drop_map take_map)
  moreover have "sorted (drop i (take j (map f xs)))"
    using assms by (intro sorted_wrt_drop sorted_wrt_take)
  ultimately show ?thesis by simp
qed

lemma version_range_body_slice:
  assumes "version_range_body c name current latest = Inr versions"
  shows "versions = [] \<or> (\<exists>names all_versions i j.
           sort_versions (version_parse c) (dict_keys names) = Inr all_versions
           \<and> versions = drop i (take j all_versions))"
  using assms unfolding version_range_body_def Let_def
  by (auto split: sum.splits if_splits)

lemma version_range_body_result:
  assumes "version_range_body c name current latest = Inr versions"
  shows "distinct versions \<and> sorted (map (\<lambda>v. the (version_parse c v)) versions)
         \<and> (\<forall>v \<in> set versions. version_parse c v \<noteq> None)"
proof (cases "versions = []")
  case True
  then show ?thesis by simp
next
  case False
  with version_range_body_slice [OF assms] obtain names all_versions i j where
    sv: "sort_versions (version_parse c) (dict_keys names) = Inr all_versions"
    and v: "versions = drop i (take j all_versions)"
    by blast
  from sort_versions_result [OF sv] dict_keys_distinct [of names]
  have "sorted (map (\<lambda>v. the (version_parse c v)) all_versions)" "distinct all_versions"
    "\<forall>v \<in> set all_versions. version_parse c v \<noteq> None"
    by simp_all
  then show ?thesis unfolding v
    by (auto simp: sorted_slice dest: in_set_dropD in_set_takeD)
qed

lemma get_version_range_result:
  assumes "get_version_range c name current latest = Inr versions"
  shows "distinct versions \<and> sorted (map (\<lambda>v. the (version_parse c v)) versions)
         \<and> (\<forall>v \<in> set versions. version_parse c v \<noteq> None)"
proof (cases "version_range_body c name current latest")
  case (Inl err)
  with assms have "versions = []" by (simp add: get_version_range_def split: if_splits)
  then show ?thesis by simp
next
  case (Inr vs)
  with assms have "version_range_body c name current latest = Inr versions"
    by (simp add: get_version_range_def)
  then show ?thesis by (rule version_range_body_result)
qed

lemma find_compatible_update_main:
  assumes "dict_get cp name = Some current" and "current \<noteq> []"
    and "get_latest_version c name = Inr (Some latest)" and "latest \<noteq> []"
    and "get_version_range c name current latest = Inr versions"
  shows "fst (find_compatible_update c cp name w) =
           (case fst (test_each_version c cp name current versions ([], [], None) w) of
              (tested, failed, compatible) \<Rightarrow>
                Inr \<lparr>package_name = name, current_version = current, target_version = latest,
                     compatible_version = compatible, tested_versions = tested,
                     failed_versions = failed\<rparr>)"
  using assms by (simp add: find_compatible_update_def truthy_def split: prod.splits)

section \<open>What the loop leaves in the failure mapping\<close>

lemma sorted_le_last:
  "sorted xs \<Longrightarrow> x \<in> set xs \<Longrightarrow> x \<le> last xs"
  by (induction xs) auto

lemma note_failures_keys:
  "fst ` set (fold (\<lambda>s f. AList.update (candidate s) (error_message (outcome s)) f) steps failed)
     = fst ` set failed \<union> candidate ` set steps"
  by (induction steps arbitrary: failed) (auto simp: dom_update)

lemma note_failures_other:
  "v \<notin> candidate ` set steps \<Longrightarrow>
     map_of (fold (\<lambda>s f. AList.update (candidate s) (error_message (outcome s)) f) steps failed) v
       = map_of failed v"
  by (induction steps arbitrary: failed) (auto simp: update_conv')

lemma note_failures_value:
  assumes "distinct (map candidate steps)" and "s \<in> set steps"
  shows "map_of (fold (\<lambda>s f. AList.update (candidate s) (error_message (outcome s)) f) steps failed)
           (candidate s) = Some (error_message (outcome s))"
  using assms
proof (induction steps arbitrary: failed)
  case Nil
  then show ?case by simp
next
  case (Cons a steps)
  show ?case
  proof (cases "s = a")
    case True
    with Cons.prems(1) have "candidate s \<notin> candidate ` set steps" by auto
    then show ?thesis using True by (simp add: note_failures_other update_conv')
  next
    case False
    with Cons show ?thesis by auto
  qed
qed

lemma last_filter_in:
  "filter P xs = p # ps \<Longrightarrow> last (p # ps) \<in> set xs \<and> P (last (p # ps))"
proof -
  assume h: "filter P xs = p # ps"
  have "last (p # ps) \<in> set (filter P xs)" unfolding h by (rule last_in_set) simp
  then show ?thesis by simp
qed

section \<open>The project of the example, evaluated\<close>

lemma demo_latest: "get_latest_version demo ''requests'' = Inr (Some ''1.3.0'')"
  by (simp add: get_latest_version_def demo_def)

lemma demo_range:
  "get_version_range demo ''requests'' ''1.0.0'' ''1.3.0''
     = Inr [''1.0.0'', ''1.1.0'', ''1.2.0'', ''1.3.0'']"
  by (simp add: get_version_range_def version_range_body_def demo_def registry_url_def
        dict_keys_def sort_versions_def)

lemma demo_current: "dict_get requests_only ''requests'' = Some ''1.0.0''"
  by (simp add: dict_get_def requests_only_def)

lemmas eval_defs = setup_test_environment_def create_virtual_environment_def
  install_requirements_def verify_installation_def get_installed_packages_def
  run_pip_command_def install_package_def run_python_command_def run_tests_def
  find_test_files_def is_test_file_def path_join_def startswith_def endswith_def
  test_package_update_def dict_get_def truthy_def lower_def lower_char_def
  requirement_line_def

lemma demo_walk:
  "walk demo requests_only ''requests'' ''1.0.0'' [''1.0.0'', ''1.1.0'', ''1.2.0'', ''1.3.0'']
     \<lparr>venv = None\<rparr> =
   [\<lparr>candidate = ''1.1.0'', reset_ok = True, install_ok = True, tests_ok = True,
     outcome = \<lparr>success = True, old_version = ''1.0.0'', new_version = ''1.1.0'',
                 error_message = None, test_output = Some ''1 passed''\<rparr>\<rparr>,
    \<lparr>candidate = ''1.2.0'', reset_ok = True, install_ok = True, tests_ok = False,
     outcome = \<lparr>success = False, old_version = ''1.0.0'', new_version = ''1.2.0'',
                 error_message = Some ''Tests failed'', test_output = Some ''1 failed''\<rparr>\<rparr>,
    \<lparr>candidate = ''1.3.0'', reset_ok = True, install_ok = True, tests_ok = True,
     outcome = \<lparr>success = True, old_version = ''1.0.0'', new_version = ''1.3.0'',
                 error_message = None, test_output = Some ''1 passed''\<rparr>\<rparr>]"
  by (simp add: eval_defs demo_def requests_only_def)

lemma demo_passing:
  "passing_candidates demo requests_only ''requests'' ''1.0.0''
     [''1.0.0'', ''1.1.0'', ''1.2.0'', ''1.3.0''] \<lparr>venv = None\<rparr> = [''1.1.0'', ''1.3.0'']"
  unfolding passing_candidates_def demo_walk by (simp add: passes_def)

lemma demo_find:
  "find_compatible_update demo requests_only ''requests'' \<lparr>venv = None\<rparr> =
     (Inr \<lparr>package_name = ''requests'', current_version = ''1.0.0'',
           target_version = ''1.3.0'', compatible_version = Some ''1.3.0'',
           tested_versions = [''1.1.0'', ''1.2.0'', ''1.3.0''],
           failed_versions = [(''1.2.0'', Some ''Tests failed'')]\<rparr>,
      \<lparr>venv = Some [''requests==1.3.0'', ''requests==1.0.0'']\<rparr>)"
  by code_simp


lemma demo_contract: "registry_keeps_contract demo ''requests''"
  by code_simp

lemma demo_setup:
  "setup_test_environment demo requests_only \<lparr>venv = None\<rparr>
     = (True, \<lparr>venv = Some [''requests==1.0.0'']\<rparr>)"
  by code_simp

lemma stale_setup:
  "setup_test_environment stale_listing requests_only \<lparr>venv = None\<rparr>
     = (False, \<lparr>venv = Some [''requests==1.0.0'']\<rparr>)"
  by code_simp

lemma requests_only_keys: "fst ` set requests_only = {''requests''}"
  by (simp add: requests_only_def)

lemma stale_latest: "get_latest_version stale_listing ''requests'' = Inr (Some ''1.3.0'')"
  by code_simp

lemma stale_range:
  "get_version_range stale_listing ''requests'' ''1.0.0'' ''1.3.0''
     = Inr ([''1.0.0'', ''1.1.0''] @ ''1.2.0'' # [''1.3.0''])"
  by code_simp

lemma stale_reset_fails:
  "\<not> fst (setup_test_environment stale_listing requests_only
            (snd (test_each_version stale_listing requests_only ''requests'' ''1.0.0''
                    [''1.0.0'', ''1.1.0''] ([], [], None) \<lparr>venv = None\<rparr>)))"
  by code_simp

lemma stale_result:
  "fst (test_package_update stale_listing requests_only ''requests'' ''1.2.0''
          (snd (setup_test_environment stale_listing requests_only
                  (snd (test_each_version stale_listing requests_only ''requests'' ''1.0.0''
                          [''1.0.0'', ''1.1.0''] ([], [], None) \<lparr>venv = None\<rparr>)))))
     = \<lparr>success = False, old_version = ''1.0.0'', new_version = ''1.2.0'',
        error_message = Some ''Tests failed'', test_output = Some ''1 failed''\<rparr>"
  by code_simp

lemma no_tests_discovery: "\<forall>w. find_test_files no_tests w = []"
  by (simp add: no_tests_def find_test_files_def demo_def is_test_file_def startswith_def)

lemma no_tests_find:
  "fst (find_compatible_update no_tests requests_only ''requests'' \<lparr>venv = None\<rparr>) =
     Inr \<lparr>package_name = ''requests'', current_version = ''1.0.0'',
          target_version = ''1.3.0'', compatible_version = None,
          tested_versions = [''1.1.0'', ''1.2.0'', ''1.3.0''],
          failed_versions = [(''1.1.0'', Some ''Tests failed''),
                             (''1.2.0'', Some ''Tests failed''),
                             (''1.3.0'', Some ''Tests failed'')]\<rparr>"
  by code_simp

section \<open>The paths through \<open>find_compatible_update\<close>\<close>

lemma find_compatible_update_cases:
  assumes "fst (find_compatible_update c cp name w) = Inr status"
  shows "(compatible_version status = None \<and> tested_versions status = []
            \<and> failed_versions status = [])
         \<or> (\<exists>current latest versions.
               dict_get cp name = Some current \<and> current \<noteq> []
               \<and> get_latest_version c name = Inr (Some latest) \<and> latest \<noteq> []
               \<and> get_version_range c name current latest = Inr versions)"
proof (cases "truthy (dict_get cp name)")
  case False
  with assms show ?thesis by (auto simp: find_compatible_update_def)
next
  case True
  then obtain current where cur: "dict_get cp name = Some current" "current \<noteq> []"
    by (auto simp: truthy_def split: option.splits)
  show ?thesis
  proof (cases "get_latest_version c name")
    case (Inl err)
    with assms True show ?thesis by (simp add: find_compatible_update_def)
  next
    case (Inr l)
    show ?thesis
    proof (cases "truthy l")
      case False
      with assms True Inr show ?thesis by (auto simp: find_compatible_update_def)
    next
      case tl: True
      then obtain latest where lat: "l = Some latest" "latest \<noteq> []"
        by (auto simp: truthy_def split: option.splits)
      show ?thesis
      proof (cases "get_version_range c name current latest")
        case (Inl err)
        with assms True Inr tl cur lat show ?thesis by (simp add: find_compatible_update_def)
      next
        case r: (Inr versions)
        with cur Inr lat show ?thesis by blast
      qed
    qed
  qed
qed

section \<open>Resetting the environment\<close>



section \<open>Requirement lines\<close>

lemma parse_requirement_unpinned:
  assumes "\<not> contains_pair (CHR ''>'') (CHR ''='') line"
    and "\<not> contains_pair (CHR ''='') (CHR ''='') line"
    and "parse_requirement line = Inr (n, ver)"
  shows "ver = None"
  using assms by (auto simp: parse_requirement_def truthy_def split: list.splits)

lemma flask_unpinned:
  "parse_requirements_txt [''requests==1.0.0'', ''flask''] =
     Inr [(''requests'', Some ''1.0.0''), (''flask'', None)]"
  by code_simp

section \<open>Exceptions out of the registry lookups\<close>

lemma first_index_at_least_error:
  "first_index_at_least parse vs target = Inl err \<Longrightarrow> err = InvalidVersion"
  by (induction vs arbitrary: err) (auto split: option.splits if_splits sum.splits)

lemma sort_versions_error:
  "sort_versions parse vs = Inl err \<Longrightarrow> err = InvalidVersion"
  by (auto simp: sort_versions_def split: if_splits)

lemma get_latest_version_returns:
  assumes "registry_keeps_contract c name"
  shows "\<exists>latest. get_latest_version c name = Inr latest"
  using assms
  by (auto simp: registry_keeps_contract_def get_latest_version_def split: sum.splits)

lemma version_range_body_error:
  assumes "registry_keeps_contract c name"
    and "version_range_body c name current latest = Inl err"
  shows "err = RequestException \<or> err = InvalidVersion"
  using assms unfolding registry_keeps_contract_def version_range_body_def Let_def
  by (auto split: sum.splits if_splits
        dest: first_index_at_least_error sort_versions_error)

lemma get_version_range_returns:
  assumes "registry_keeps_contract c name"
  shows "\<exists>versions. get_version_range c name current latest = Inr versions"
proof (cases "version_range_body c name current latest")
  case (Inl err)
  with version_range_body_error [OF assms Inl] show ?thesis
    by (auto simp: get_version_range_def)
next
  case (Inr versions)
  then show ?thesis by (simp add: get_version_range_def)
qed

lemma find_compatible_update_returns:
  assumes "registry_keeps_contract c name"
  shows "\<exists>status. fst (find_compatible_update c cp name w) = Inr status"
proof -
  obtain latest where l: "get_latest_version c name = Inr latest"
    using get_latest_version_returns [OF assms] by blast
  obtain versions where
    v: "get_version_range c name (the (dict_get cp name)) (the latest) = Inr versions"
    using get_version_range_returns [OF assms] by blast
  show ?thesis
    by (simp add: find_compatible_update_def Let_def l v split: prod.splits)
qed

lemma find_compatible_update_name:
  "fst (find_compatible_update c cp name w) = Inr status \<Longrightarrow> package_name status = name"
  by (auto simp: find_compatible_update_def Let_def split: if_splits sum.splits prod.splits)

lemma update_each_package_entries:
  assumes "fst (update_each_package c cp names results w) = Inr final"
  shows "fst ` set final = fst ` set results \<union> set names
         \<and> (distinct (map fst results) \<longrightarrow> distinct (map fst final))
         \<and> ((\<forall>(n, st) \<in> set results. package_name st = n)
              \<longrightarrow> (\<forall>(n, st) \<in> set final. package_name st = n))"
  using assms
proof (induction names arbitrary: results w)
  case Nil
  then show ?case by simp
next
  case (Cons name names)
  obtain r w' where f: "find_compatible_update c cp name w = (r, w')"
    by (cases "find_compatible_update c cp name w")
  show ?case
  proof (cases r)
    case (Inl err)
    with Cons.prems f show ?thesis by simp
  next
    case (Inr status)
    with Cons.prems f
    have rest: "fst (update_each_package c cp names (AList.update name status results) w')
                  = Inr final"
      by simp
    have nm: "package_name status = name"
      using f Inr by (intro find_compatible_update_name [of c cp name w]) simp
    have keep: "\<forall>(n, st) \<in> set (AList.update name status results). package_name st = n"
      if "\<forall>(n, st) \<in> set results. package_name st = n"
      using that nm by (induction results) auto
    from Cons.IH [OF rest] keep show ?thesis
      by (auto simp: dom_update distinct_update)
  qed
qed

lemma update_each_package_returns:
  assumes "\<forall>n \<in> set names. registry_keeps_contract c n"
  shows "\<exists>final. fst (update_each_package c cp names results w) = Inr final"
  using assms
proof (induction names arbitrary: results w)
  case Nil
  then show ?case by simp
next
  case (Cons name names)
  from Cons.prems have "registry_keeps_contract c name" by simp
  from find_compatible_update_returns [OF this, of cp w]
  obtain status w' where "find_compatible_update c cp name w = (Inr status, w')"
    by (cases "find_compatible_update c cp name w") auto
  then show ?case using Cons.IH [of "AList.update name status results" w'] Cons.prems
    by simp
qed

section \<open>The loop over a list in two parts\<close>

lemma test_each_version_append:
  "test_each_version c cp name current (xs @ ys) acc w =
     (case test_each_version c cp name current xs acc w of
        (acc', w') \<Rightarrow> test_each_version c cp name current ys acc' w')"
proof (induction xs arbitrary: acc w)
  case Nil
  show ?case by simp
next
  case (Cons x xs)
  obtain tested failed compatible where acc: "acc = (tested, failed, compatible)"
    by (cases acc)
  show ?case unfolding acc
    by (simp add: Cons.IH Let_def split: prod.splits)
qed

lemma loop_tested:
  "fst (fst (test_each_version c cp name current versions (tested, failed, compatible) w))
     = tested @ filter (\<lambda>v. v \<noteq> current) versions"
  unfolding loop_as_walk Let_def by (simp add: walk_candidates)

lemma loop_failed_other:
  assumes "v \<notin> set versions"
  shows "map_of (fst (snd (fst (test_each_version c cp name current versions
                                  (tested, failed, compatible) w)))) v
           = map_of failed v"
proof -
  have "v \<notin> candidate ` set (walk c cp name current versions w)"
  proof
    assume "v \<in> candidate ` set (walk c cp name current versions w)"
    then have "v \<in> set (map candidate (walk c cp name current versions w))" by simp
    then show False using assms by (simp add: walk_candidates)
  qed
  then have "v \<notin> candidate ` set (filter (\<lambda>s. \<not> success (outcome s))
                                   (walk c cp name current versions w))"
    by auto
  then show ?thesis unfolding loop_as_walk Let_def
    by (simp add: note_failures_other)
qed

lemma loop_compatible_other:
  assumes "v \<notin> set versions"
    and "snd (snd (fst (test_each_version c cp name current versions
                          (tested, failed, compatible) w))) = Some v"
  shows "compatible = Some v"
proof (cases "filter (\<lambda>s. success (outcome s)) (walk c cp name current versions w)")
  case Nil
  with assms(2) show ?thesis unfolding loop_as_walk Let_def by simp
next
  case (Cons p ps)
  from last_filter_in [OF Cons]
  have "last (p # ps) \<in> set (walk c cp name current versions w)"
    by simp
  then have "candidate (last (p # ps))
               \<in> set (map candidate (walk c cp name current versions w))"
    by (simp del: last.simps)
  then have "candidate (last (p # ps)) \<in> set (filter (\<lambda>v. v \<noteq> current) versions)"
    by (simp only: walk_candidates)
  then have "candidate (last (p # ps)) \<noteq> v" using assms(1) by auto
  moreover have "candidate (last (p # ps)) = v"
    using assms(2) Cons unfolding loop_as_walk Let_def by (simp del: last.simps)
  ultimately show ?thesis by simp
qed

section \<open>A project without test files\<close>

lemma run_tests_without_files:
  "find_test_files c w = [] \<Longrightarrow> run_tests c w = ((False, ''No test files found''), w)"
  by (simp add: run_tests_def)

lemma walk_without_tests:
  assumes "\<forall>w. find_test_files c w = []"
    and "s \<in> set (walk c cp name current versions w)"
  shows "\<not> tests_ok s"
  using assms(2)
proof (induction versions arbitrary: w)
  case Nil
  then show ?case by simp
next
  case (Cons v vs)
  show ?case
  proof (cases "v = current")
    case True
    with Cons show ?thesis by simp
  next
    case False
    obtain r w1 where r: "setup_test_environment c cp w = (r, w1)"
      by (cases "setup_test_environment c cp w")
    obtain i w1' where i: "install_package c name (Some v) w1 = (i, w1')"
      by (cases "install_package c name (Some v) w1")
    obtain res w2 where res: "test_package_update c cp name v w1 = (res, w2)"
      by (cases "test_package_update c cp name v w1")
    from Cons.prems False r i res
    consider "s = \<lparr>candidate = v, reset_ok = r, install_ok = i,
                 tests_ok = fst (fst (run_tests c w1')), outcome = res\<rparr>"
      | "s \<in> set (walk c cp name current vs w2)"
      by auto
    then show ?thesis
    proof cases
      case 1
      then show ?thesis using assms(1) by (simp add: run_tests_without_files)
    next
      case 2
      then show ?thesis by (rule Cons.IH)
    qed
  qed
qed

section \<open>Runs in which \<open>venv.create\<close> does not exit\<close>

lemma create_virtual_environment_exit_None:
  "create_virtual_environment_exit c None w =
     (Inr (fst (create_virtual_environment c w)), snd (create_virtual_environment c w))"
  by (simp add: create_virtual_environment_exit_def create_virtual_environment_def
        split: sum.splits)

lemma setup_test_environment_exit_None:
  "setup_test_environment_exit c None cp w =
     (Inr (fst (setup_test_environment c cp w)), snd (setup_test_environment c cp w))"
  by (simp add: setup_test_environment_exit_def setup_test_environment_def
        create_virtual_environment_exit_None
        split: prod.splits sum.splits bool.splits)

lemma test_each_version_exit_None:
  "test_each_version_exit c None cp name current versions acc w =
     (Inr (fst (test_each_version c cp name current versions acc w)),
      snd (test_each_version c cp name current versions acc w))"
proof (induction versions arbitrary: acc w)
  case Nil
  show ?case by simp
next
  case (Cons v vs)
  obtain tested failed compatible where acc: "acc = (tested, failed, compatible)"
    by (cases acc)
  show ?case unfolding acc
    by (simp add: Cons.IH setup_test_environment_exit_None Let_def split: prod.splits)
qed

lemma find_compatible_update_exit_None:
  "find_compatible_update_exit c None cp name w =
     (case fst (find_compatible_update c cp name w) of
        Inl err \<Rightarrow> Inl (Exception err)
      | Inr status \<Rightarrow> Inr status,
      snd (find_compatible_update c cp name w))"
  by (simp add: find_compatible_update_exit_def find_compatible_update_def Let_def
        test_each_version_exit_None split: sum.splits prod.splits)

lemma update_each_package_exit_None:
  "update_each_package_exit c None cp names results w =
     (case fst (update_each_package c cp names results w) of
        Inl err \<Rightarrow> Inl (Exception err)
      | Inr final \<Rightarrow> Inr final,
      snd (update_each_package c cp names results w))"
proof (induction names arbitrary: results w)
  case Nil
  show ?case by simp
next
  case (Cons name names)
  show ?case
    by (cases "find_compatible_update c cp name w"; cases "fst (find_compatible_update c cp name w)")
       (simp_all add: find_compatible_update_exit_None Cons.IH)
qed

lemma update_all_packages_exit_None:
  "update_all_packages_exit c None cp w =
     (case fst (update_all_packages c cp w) of
        Inl err \<Rightarrow> Inl (Exception err)
      | Inr final \<Rightarrow> Inr final,
      snd (update_all_packages c cp w))"
  by (cases "setup_test_environment c cp w"; cases "fst (setup_test_environment c cp w)")
     (simp_all add: update_all_packages_exit_def update_all_packages_def
        setup_test_environment_exit_None update_each_package_exit_None)

section \<open>The compatibility search\<close>

text \<open>
  Claim C1.  Take a package with a pinned version, a latest version and a candidate list
  from \<open>get_version_range\<close> (which is ascending).  Then \<open>find_compatible_update\<close>
  returns a status whose \<open>compatible_version\<close> is the last candidate of the walk,
  other than the current version, at which the installation and the test run both
  succeeded, however many earlier candidates passed or failed; it is \<open>None\<close> when no
  candidate passed.  That last passing candidate is also a highest one: no passing
  candidate parses to a greater version.
\<close>

theorem find_compatible_update_last_passing:
  assumes "dict_get cp name = Some current" and "current \<noteq> []"
    and "get_latest_version c name = Inr (Some latest)" and "latest \<noteq> []"
    and "get_version_range c name current latest = Inr versions"
  shows "\<exists>status. fst (find_compatible_update c cp name w) = Inr status
           \<and> compatible_version status =
               (if passing_candidates c cp name current versions w = [] then None
                else Some (last (passing_candidates c cp name current versions w)))
           \<and> (\<forall>v \<in> set (passing_candidates c cp name current versions w).
                \<exists>k h. version_parse c v = Some k
                  \<and> version_parse c (last (passing_candidates c cp name current versions w)) = Some h
                  \<and> k \<le> h)"
proof -
  let ?steps = "walk c cp name current versions w"
  let ?pass = "passing_candidates c cp name current versions w"
  let ?key = "\<lambda>v. the (version_parse c v)"
  have tr: "truthy (dict_get cp name)" using assms(1,2) by (simp add: truthy_def)
  have same: "filter (\<lambda>s. success (outcome s)) ?steps = filter passes ?steps"
    by (rule filter_cong) (simp_all add: walk_outcome [OF tr])
  obtain tested failed compatible where
    loop: "fst (test_each_version c cp name current versions ([], [], None) w)
             = (tested, failed, compatible)"
    by (cases "fst (test_each_version c cp name current versions ([], [], None) w)")
  have comp: "compatible = (if ?pass = [] then None else Some (last ?pass))"
    using loop unfolding loop_as_walk Let_def same passing_candidates_def
    by (auto split: list.splits simp: last_map)
  have range: "sorted (map ?key versions)" "\<forall>v \<in> set versions. version_parse c v \<noteq> None"
    using get_version_range_result [OF assms(5)] by simp_all
  have "sorted (map ?key (filter (\<lambda>v. v \<noteq> current) versions))"
    using range(1) by (rule sorted_filter)
  then have "sorted (map (?key \<circ> candidate) ?steps)"
    by (simp add: walk_candidates [of c cp name current versions w, symmetric])
  then have "sorted (map (?key \<circ> candidate) (filter passes ?steps))"
    by (rule sorted_filter)
  then have sorted_pass: "sorted (map ?key ?pass)"
    by (simp add: passing_candidates_def)
  have pass_sub: "set ?pass \<subseteq> set versions"
  proof -
    have "set ?pass \<subseteq> set (map candidate ?steps)"
      by (auto simp: passing_candidates_def)
    then show ?thesis by (auto simp: walk_candidates)
  qed
  have high: "\<exists>k h. version_parse c v = Some k \<and> version_parse c (last ?pass) = Some h \<and> k \<le> h"
    if v: "v \<in> set ?pass" for v
  proof -
    from v have ne: "?pass \<noteq> []" by auto
    then have l: "last ?pass \<in> set ?pass" by (rule last_in_set)
    from v have "?key v \<in> set (map ?key ?pass)" by simp
    with sorted_pass have "?key v \<le> last (map ?key ?pass)" by (rule sorted_le_last)
    then have "?key v \<le> ?key (last ?pass)" using ne by (simp add: last_map)
    moreover have "version_parse c v = Some (?key v)" using v pass_sub range(2) by auto
    moreover have "version_parse c (last ?pass) = Some (?key (last ?pass))"
      using l pass_sub range(2) by auto
    ultimately show ?thesis by blast
  qed
  show ?thesis
    using find_compatible_update_main [OF assms, of w] loop comp high by auto
qed

theorem find_compatible_update_last_passing_witness:
  "passing_candidates demo requests_only ''requests'' ''1.0.0''
     [''1.0.0'', ''1.1.0'', ''1.2.0'', ''1.3.0''] \<lparr>venv = None\<rparr> = [''1.1.0'', ''1.3.0'']
   \<and> (\<exists>status. fst (find_compatible_update demo requests_only ''requests'' \<lparr>venv = None\<rparr>)
                   = Inr status
         \<and> compatible_version status = Some ''1.3.0'')"
  using find_compatible_update_last_passing
          [OF demo_current _ demo_latest _ demo_range, of "\<lparr>venv = None\<rparr>"]
  unfolding demo_passing by auto

text \<open>
  Claim C2.  In every status that \<open>find_compatible_update\<close> returns, every key of
  \<open>failed_versions\<close> is a member of \<open>tested_versions\<close>, and a
  \<open>compatible_version\<close> that is present and differs from \<open>current_version\<close> is
  no key of \<open>failed_versions\<close> and is a member of \<open>tested_versions\<close>.
\<close>

theorem find_compatible_update_ledger_invariant:
  assumes "fst (find_compatible_update c cp name w) = Inr status"
  shows "fst ` set (failed_versions status) \<subseteq> set (tested_versions status)
         \<and> (\<forall>v. compatible_version status = Some v \<and> v \<noteq> current_version status \<longrightarrow>
               v \<notin> fst ` set (failed_versions status) \<and> v \<in> set (tested_versions status))"
  using find_compatible_update_cases [OF assms]
proof (elim disjE exE conjE)
  assume "compatible_version status = None" "tested_versions status = []"
    "failed_versions status = []"
  then show ?thesis by simp
next
  fix current latest versions
  assume h: "dict_get cp name = Some current" "current \<noteq> []"
    "get_latest_version c name = Inr (Some latest)" "latest \<noteq> []"
    "get_version_range c name current latest = Inr versions"
  let ?steps = "walk c cp name current versions w"
  let ?bad = "filter (\<lambda>s. \<not> success (outcome s)) ?steps"
  let ?good = "filter (\<lambda>s. success (outcome s)) ?steps"
  obtain tested failed compatible where
    loop: "fst (test_each_version c cp name current versions ([], [], None) w)
             = (tested, failed, compatible)"
    by (cases "fst (test_each_version c cp name current versions ([], [], None) w)")
  from find_compatible_update_main [OF h, of w] assms loop
  have "status = \<lparr>package_name = name, current_version = current, target_version = latest,
                   compatible_version = compatible, tested_versions = tested,
                   failed_versions = failed\<rparr>"
    by simp
  then have st: "tested_versions status = tested" "failed_versions status = failed"
    "compatible_version status = compatible"
    by simp_all
  from loop have t: "tested = map candidate ?steps"
    and f: "failed = fold (\<lambda>s f. AList.update (candidate s) (error_message (outcome s)) f) ?bad []"
    and cm: "compatible = (case ?good of [] \<Rightarrow> None | p # ps \<Rightarrow> Some (candidate (last (p # ps))))"
    unfolding loop_as_walk Let_def by simp_all
  have keys: "fst ` set failed = candidate ` set ?bad"
    unfolding f note_failures_keys by simp
  have dist: "distinct (map candidate ?steps)"
    using get_version_range_result [OF h(5)] by (simp add: walk_candidates)
  have "fst ` set failed \<subseteq> set tested" unfolding keys t by auto
  moreover have "v \<notin> fst ` set failed \<and> v \<in> set tested" if "compatible = Some v" for v
  proof -
    from that cm obtain p ps where g: "?good = p # ps" and v: "v = candidate (last (p # ps))"
      by (auto split: list.splits)
    from last_filter_in [OF g] have l: "last (p # ps) \<in> set ?steps" "success (outcome (last (p # ps)))"
      by simp_all
    have "v \<notin> candidate ` set ?bad"
    proof
      assume "v \<in> candidate ` set ?bad"
      then obtain s where s: "s \<in> set ?steps" "\<not> success (outcome s)" "candidate s = v" by auto
      from dist have "inj_on candidate (set ?steps)" by (simp add: distinct_map)
      with s(1,3) l(1) v have "s = last (p # ps)" by (simp add: inj_on_def)
      with s(2) l(2) show False by simp
    qed
    moreover have "v \<in> set tested" unfolding t v using l(1) by simp
    ultimately show ?thesis by (simp add: keys)
  qed
  ultimately show ?thesis by (simp add: st)
qed

theorem find_compatible_update_ledger_invariant_witness:
  "\<exists>status. fst (find_compatible_update demo requests_only ''requests'' \<lparr>venv = None\<rparr>)
               = Inr status
     \<and> compatible_version status = Some ''1.3.0'' \<and> ''1.3.0'' \<noteq> current_version status
     \<and> fst ` set (failed_versions status) = {''1.2.0''}
     \<and> fst ` set (failed_versions status) \<subseteq> set (tested_versions status)
     \<and> ''1.3.0'' \<notin> fst ` set (failed_versions status)
     \<and> ''1.3.0'' \<in> set (tested_versions status)"
proof -
  let ?status = "\<lparr>package_name = ''requests'', current_version = ''1.0.0'',
                  target_version = ''1.3.0'', compatible_version = Some ''1.3.0'',
                  tested_versions = [''1.1.0'', ''1.2.0'', ''1.3.0''],
                  failed_versions = [(''1.2.0'', Some ''Tests failed'')]\<rparr>"
  have r: "fst (find_compatible_update demo requests_only ''requests'' \<lparr>venv = None\<rparr>)
             = Inr ?status"
    by (simp add: demo_find)
  note inv = find_compatible_update_ledger_invariant [OF r]
  have "fst ` set (failed_versions ?status) \<subseteq> set (tested_versions ?status)"
    by (rule inv [THEN conjunct1])
  moreover have "''1.3.0'' \<notin> fst ` set (failed_versions ?status)
                 \<and> ''1.3.0'' \<in> set (tested_versions ?status)"
    by (rule inv [THEN conjunct2, THEN spec, THEN mp]) simp
  ultimately show ?thesis using r by (intro exI [of _ ?status]) simp
qed





text \<open>
  Claim C9.  A package that the current package set maps to no version is treated like
  an absent one: \<open>find_compatible_update\<close> returns the status with current and target
  version \<open>unknown\<close>, no compatible version and empty tested and failed collections,
  and \<open>test_package_update\<close> returns a failure whose old version is \<open>unknown\<close>;
  neither touches the environment.  A requirement line with neither \<open>>=\<close> nor
  \<open>==\<close> is parsed to such an entry.
\<close>

theorem unpinned_package_is_unknown:
  assumes "map_of cp name = Some None"
  shows "find_compatible_update c cp name w =
           (Inr \<lparr>package_name = name, current_version = ''unknown'',
                 target_version = ''unknown'', compatible_version = None,
                 tested_versions = [], failed_versions = []\<rparr>, w)
         \<and> test_package_update c cp name version w =
           (\<lparr>success = False, old_version = ''unknown'', new_version = version,
             error_message = Some (''Package '' @ name @ '' not found in current packages''),
             test_output = None\<rparr>, w)
         \<and> (\<forall>cp'. map_of cp' name = None \<longrightarrow>
               find_compatible_update c cp' name w = find_compatible_update c cp name w
               \<and> test_package_update c cp' name version w
                   = test_package_update c cp name version w)
         \<and> (\<forall>line n ver. \<not> contains_pair (CHR ''>'') (CHR ''='') line
               \<and> \<not> contains_pair (CHR ''='') (CHR ''='') line
               \<and> parse_requirement line = Inr (n, ver) \<longrightarrow> ver = None)"
proof -
  have "\<forall>line n ver. \<not> contains_pair (CHR ''>'') (CHR ''='') line
               \<and> \<not> contains_pair (CHR ''='') (CHR ''='') line
               \<and> parse_requirement line = Inr (n, ver) \<longrightarrow> ver = None"
    using parse_requirement_unpinned by blast
  then show ?thesis
    using assms
    by (simp add: find_compatible_update_def test_package_update_def dict_get_def truthy_def)
qed

theorem unpinned_package_is_unknown_witness:
  "parse_requirements_txt [''requests==1.0.0'', ''flask''] =
     Inr [(''requests'', Some ''1.0.0''), (''flask'', None)]
   \<and> find_compatible_update demo [(''requests'', Some ''1.0.0''), (''flask'', None)] ''flask''
         \<lparr>venv = None\<rparr> =
       (Inr \<lparr>package_name = ''flask'', current_version = ''unknown'',
             target_version = ''unknown'', compatible_version = None,
             tested_versions = [], failed_versions = []\<rparr>, \<lparr>venv = None\<rparr>)
   \<and> test_package_update demo [(''requests'', Some ''1.0.0''), (''flask'', None)] ''flask''
         ''2.0.0'' \<lparr>venv = None\<rparr> =
       (\<lparr>success = False, old_version = ''unknown'', new_version = ''2.0.0'',
         error_message = Some ''Package flask not found in current packages'',
         test_output = None\<rparr>, \<lparr>venv = None\<rparr>)"
  using unpinned_package_is_unknown
          [of "[(''requests'', Some ''1.0.0''), (''flask'', None)]" "''flask''" demo
              "\<lparr>venv = None\<rparr>" "''2.0.0''"]
        flask_unpinned
  by simp

section \<open>Verifying an installation\<close>

text \<open>
  Claim C6 says that \<open>verify_installation\<close> never raises and compares names without
  regard to case.  Where the required name \<open>flask\<close> is installed as \<open>Flask\<close> in the
  required version, the membership test succeeds on the lower-cased names, and the lookup
  \<open>installed[package]\<close> then raises \<open>KeyError\<close>.
\<close>

theorem verify_installation_raises_on_case_mismatch:
  "fst (get_installed_packages flask_listed \<lparr>venv = Some []\<rparr>) = Inr [(''Flask'', ''2.0.0'')]
   \<and> lower ''flask'' \<in> set (map (lower \<circ> fst) [(''Flask'', ''2.0.0'')])
   \<and> fst (verify_installation flask_listed [(''flask'', Some ''2.0.0'')] \<lparr>venv = Some []\<rparr>)
       = Inl KeyError"
  by code_simp

section \<open>All packages of a project\<close>

text \<open>
  Claim C4.  Where the first \<open>setup_test_environment\<close> fails,
  \<open>update_all_packages\<close> returns the empty mapping and leaves the world as that setup
  left it: no package is looked at.  Where it succeeds, a mapping that
  \<open>update_all_packages\<close> returns has exactly one entry for each package of the current
  package set, the status of that package; and a mapping is returned whenever the registry
  keeps to what the lookups catch.
\<close>

theorem update_all_packages_baseline:
  "(\<not> fst (setup_test_environment c cp w) \<longrightarrow>
      update_all_packages c cp w = (Inr [], snd (setup_test_environment c cp w)))
   \<and> (fst (setup_test_environment c cp w) \<longrightarrow>
        (\<forall>results. fst (update_all_packages c cp w) = Inr results \<longrightarrow>
           fst ` set results = fst ` set cp \<and> distinct (map fst results)
           \<and> (\<forall>(n, st) \<in> set results. package_name st = n))
        \<and> ((\<forall>n \<in> fst ` set cp. registry_keeps_contract c n) \<longrightarrow>
             (\<exists>results. fst (update_all_packages c cp w) = Inr results)))"
proof (cases "setup_test_environment c cp w")
  case (Pair ok w')
  show ?thesis
  proof (cases ok)
    case False
    with Pair show ?thesis by (simp add: update_all_packages_def)
  next
    case True
    with Pair have u: "update_all_packages c cp w = update_each_package c cp (map fst cp) [] w'"
      by (simp add: update_all_packages_def)
    have "fst ` set results = fst ` set cp \<and> distinct (map fst results)
           \<and> (\<forall>(n, st) \<in> set results. package_name st = n)"
      if "fst (update_all_packages c cp w) = Inr results" for results
      using update_each_package_entries [of c cp "map fst cp" "[]" w' results] that
      unfolding u by simp
    moreover have "\<exists>results. fst (update_all_packages c cp w) = Inr results"
      if "\<forall>n \<in> fst ` set cp. registry_keeps_contract c n"
      using update_each_package_returns [of "map fst cp" c cp "[]" w'] that
      unfolding u by simp
    ultimately show ?thesis using Pair True by simp
  qed
qed

theorem update_all_packages_baseline_witness:
  "fst (update_all_packages stale_listing requests_only \<lparr>venv = None\<rparr>) = Inr []
   \<and> (\<exists>results. fst (update_all_packages demo requests_only \<lparr>venv = None\<rparr>) = Inr results
         \<and> fst ` set results = {''requests''} \<and> distinct (map fst results))"
proof -
  have ok: "fst (setup_test_environment demo requests_only \<lparr>venv = None\<rparr>)"
    by (simp add: demo_setup)
  have bad: "\<not> fst (setup_test_environment stale_listing requests_only \<lparr>venv = None\<rparr>)"
    by (simp add: stale_setup)
  have all: "\<forall>n \<in> fst ` set requests_only. registry_keeps_contract demo n"
    by (simp add: requests_only_keys demo_contract)
  note failing = update_all_packages_baseline
    [of stale_listing requests_only "\<lparr>venv = None\<rparr>", THEN conjunct1, THEN mp, OF bad]
  note passing = update_all_packages_baseline
    [of demo requests_only "\<lparr>venv = None\<rparr>", THEN conjunct2, THEN mp, OF ok]
  from passing [THEN conjunct2, THEN mp, OF all] obtain results where
    r: "fst (update_all_packages demo requests_only \<lparr>venv = None\<rparr>) = Inr results" ..
  note entries = passing [THEN conjunct1, THEN spec, THEN mp, OF r]
  from entries have "fst ` set results = {''requests''}" "distinct (map fst results)"
    by (simp_all add: requests_only_keys)
  with r have "\<exists>results. fst (update_all_packages demo requests_only \<lparr>venv = None\<rparr>)
                  = Inr results
        \<and> fst ` set results = {''requests''} \<and> distinct (map fst results)"
    by (intro exI [of _ results]) simp
  moreover have "fst (update_all_packages stale_listing requests_only \<lparr>venv = None\<rparr>) = Inr []"
    by (simp add: failing)
  ultimately show ?thesis by (intro conjI)
qed

text \<open>
  Claim C5, amended.  Let \<open>venv.create\<close> not end in an exit of the interpreter, and
  let the registry lookup for the package raise nothing but \<open>RequestException\<close>
  (and, for the release names, \<open>InvalidVersion\<close>).  Then
  \<open>find_compatible_update\<close> returns a status and raises nothing, whatever else the
  environment operations and the test runner do.  Where the registry keeps to that for
  every package of the project, \<open>update_all_packages\<close> returns a mapping, which after
  a successful first setup has an entry for every package, whichever of them failed.
\<close>

theorem search_never_raises_within_except_clauses:
  "(exits = None \<and> registry_keeps_contract c name \<longrightarrow>
      (\<exists>status. fst (find_compatible_update_exit c exits cp name w) = Inr status))
   \<and> (exits = None \<and> (\<forall>n \<in> fst ` set cp. registry_keeps_contract c n) \<longrightarrow>
        (\<exists>results. fst (update_all_packages_exit c exits cp w) = Inr results
           \<and> (fst (setup_test_environment_exit c exits cp w) = Inr True \<longrightarrow>
                 fst ` set results = fst ` set cp)))"
proof -
  have one: "\<exists>status. fst (find_compatible_update_exit c None cp name w) = Inr status"
    if "registry_keeps_contract c name"
  proof -
    from find_compatible_update_returns [OF that, of cp w]
    obtain status where "fst (find_compatible_update c cp name w) = Inr status" ..
    then show ?thesis by (simp add: find_compatible_update_exit_None)
  qed
  have all: "\<exists>results. fst (update_all_packages_exit c None cp w) = Inr results
           \<and> (fst (setup_test_environment_exit c None cp w) = Inr True \<longrightarrow>
                 fst ` set results = fst ` set cp)"
    if h: "\<forall>n \<in> fst ` set cp. registry_keeps_contract c n"
  proof (cases "setup_test_environment c cp w")
    case (Pair ok w')
    show ?thesis
    proof (cases ok)
      case False
      with Pair show ?thesis
        by (simp add: update_all_packages_exit_None setup_test_environment_exit_None
              update_all_packages_def)
    next
      case True
      with Pair have u: "update_all_packages c cp w = update_each_package c cp (map fst cp) [] w'"
        by (simp add: update_all_packages_def)
      from update_each_package_returns [of "map fst cp" c cp "[]" w'] h
      obtain results where r: "fst (update_each_package c cp (map fst cp) [] w') = Inr results"
        by auto
      from update_each_package_entries [OF r] have "fst ` set results = fst ` set cp" by simp
      with r show ?thesis by (simp add: update_all_packages_exit_None u)
    qed
  qed
  show ?thesis using one all by blast
qed

theorem search_never_raises_within_except_clauses_witness:
  "registry_keeps_contract demo ''requests''
   \<and> (\<exists>status. fst (find_compatible_update_exit demo None requests_only ''requests''
                       \<lparr>venv = None\<rparr>) = Inr status)
   \<and> (\<exists>results. fst (update_all_packages_exit demo None requests_only \<lparr>venv = None\<rparr>)
                    = Inr results
         \<and> fst ` set results = {''requests''})"
proof -
  have ok: "fst (setup_test_environment_exit demo None requests_only \<lparr>venv = None\<rparr>) = Inr True"
    by (simp add: setup_test_environment_exit_None demo_setup)
  have all: "\<forall>n \<in> fst ` set requests_only. registry_keeps_contract demo n"
    by (simp add: requests_only_keys demo_contract)
  note inst = search_never_raises_within_except_clauses
    [of None demo "''requests''" requests_only "\<lparr>venv = None\<rparr>"]
  note one = inst [THEN conjunct1, THEN mp, OF conjI, OF refl demo_contract]
  from inst [THEN conjunct2, THEN mp, OF conjI, OF refl all] obtain results where
    r: "fst (update_all_packages_exit demo None requests_only \<lparr>venv = None\<rparr>) = Inr results"
    and k: "fst (setup_test_environment_exit demo None requests_only \<lparr>venv = None\<rparr>) = Inr True
              \<longrightarrow> fst ` set results = fst ` set requests_only"
    by (elim exE conjE)
  from k ok have "fst ` set results = {''requests''}"
    by (simp add: requests_only_keys)
  with r have "\<exists>results. fst (update_all_packages_exit demo None requests_only \<lparr>venv = None\<rparr>)
                  = Inr results \<and> fst ` set results = {''requests''}"
    by (intro exI [of _ results]) simp
  with one demo_contract show ?thesis by (intro conjI)
qed

text \<open>
  Claim C5 as it was stated, for every behaviour of the collaborators, fails in two ways.
  Where the registry answers with status 200 and a body without the members read, the
  \<open>KeyError\<close> passes through \<open>get_latest_version\<close> and
  \<open>find_compatible_update\<close>, and \<open>update_all_packages\<close> ends with it before it
  reaches the second package, which by itself would have been evaluated.  Where
  \<open>venv.create\<close> ends in \<open>sys.exit\<close>, the \<open>SystemExit\<close> passes through
  \<open>setup_test_environment\<close>, \<open>find_compatible_update\<close> and
  \<open>update_all_packages\<close>, with a registry that answers well.
\<close>

theorem search_raises_past_its_except_clauses:
  "fst (find_compatible_update odd_registry two_packages ''requests'' \<lparr>venv = None\<rparr>)
     = Inl KeyError
   \<and> fst (setup_test_environment odd_registry two_packages \<lparr>venv = None\<rparr>)
   \<and> fst (update_all_packages odd_registry two_packages \<lparr>venv = None\<rparr>) = Inl KeyError
   \<and> fst (find_compatible_update odd_registry two_packages ''flask'' \<lparr>venv = None\<rparr>)
     = Inr \<lparr>package_name = ''flask'', current_version = ''2.0.0'', target_version = ''2.0.0'',
            compatible_version = None, tested_versions = [], failed_versions = []\<rparr>
   \<and> fst (find_compatible_update_exit odd_registry None two_packages ''requests''
            \<lparr>venv = None\<rparr>) = Inl (Exception KeyError)
   \<and> fst (update_all_packages_exit odd_registry None two_packages \<lparr>venv = None\<rparr>)
     = Inl (Exception KeyError)
   \<and> registry_keeps_contract demo ''requests''
   \<and> fst (find_compatible_update_exit demo (Some None) requests_only ''requests''
            \<lparr>venv = None\<rparr>) = Inl SystemExit
   \<and> fst (update_all_packages_exit demo (Some None) requests_only \<lparr>venv = None\<rparr>)
     = Inl SystemExit"
  by code_simp

section \<open>A reset that fails\<close>

text \<open>
  Claim C8.  The loop of \<open>find_compatible_update\<close> does not look at the result of
  \<open>setup_test_environment\<close>.  Take any candidate other than the current version, and
  let the reset before it fail.  The candidate is still installed and tested, on the
  world that the failed reset left: it is among the tested versions of the returned status;
  where that test fails, its message is the entry of the candidate in the failure mapping;
  where it succeeds, the candidate has no entry there and is the compatible version
  unless a later candidate is.
\<close>

theorem reset_result_is_discarded:
  assumes "dict_get cp name = Some current" and "current \<noteq> []"
    and "get_latest_version c name = Inr (Some latest)" and "latest \<noteq> []"
    and "get_version_range c name current latest = Inr (before @ version # after)"
    and "version \<noteq> current"
    and "wb = snd (test_each_version c cp name current before ([], [], None) w)"
    and "\<not> fst (setup_test_environment c cp wb)"
    and "result = fst (test_package_update c cp name version
                         (snd (setup_test_environment c cp wb)))"
  shows "\<exists>status. fst (find_compatible_update c cp name w) = Inr status
           \<and> version \<in> set (tested_versions status)
           \<and> (\<not> success result \<longrightarrow>
                 map_of (failed_versions status) version = Some (error_message result)
                 \<and> compatible_version status \<noteq> Some version)
           \<and> (success result \<longrightarrow>
                 version \<notin> fst ` set (failed_versions status)
                 \<and> (compatible_version status = Some version
                      \<or> (\<exists>later \<in> set after. compatible_version status = Some later)))"
proof -
  let ?loop = "test_each_version c cp name current"
  obtain t f cm where b: "?loop before ([], [], None) w = ((t, f, cm), wb)"
    using assms(7) by (cases "?loop before ([], [], None) w") auto
  obtain r w1 where r: "setup_test_environment c cp wb = (r, w1)"
    by (cases "setup_test_environment c cp wb")
  obtain w2 where res: "test_package_update c cp name version w1 = (result, w2)"
    using assms(9) r by (cases "test_package_update c cp name version w1") simp
  let ?f = "if success result then f else AList.update version (error_message result) f"
  let ?cm = "if success result then Some version else cm"
  have whole: "?loop (before @ version # after) ([], [], None) w
                 = ?loop after (t @ [version], ?f, ?cm) w2"
    using b r res assms(6) by (simp add: test_each_version_append)
  have dist: "distinct (before @ version # after)"
    using get_version_range_result [OF assms(5)] by simp
  then have nb: "version \<notin> set before" and na: "version \<notin> set after" by auto
  obtain tested failed compatible where
    fin: "fst (?loop (before @ version # after) ([], [], None) w) = (tested, failed, compatible)"
    by (cases "fst (?loop (before @ version # after) ([], [], None) w)")
  from find_compatible_update_main [OF assms(1-5), of w] fin
  have st: "fst (find_compatible_update c cp name w) =
              Inr \<lparr>package_name = name, current_version = current, target_version = latest,
                   compatible_version = compatible, tested_versions = tested,
                   failed_versions = failed\<rparr>"
    by simp
  have tested: "tested = (t @ [version]) @ filter (\<lambda>v. v \<noteq> current) after"
    using loop_tested [of c cp name current after "t @ [version]" ?f ?cm w2] fin whole
    by simp
  have failed: "map_of failed version = map_of ?f version"
    using loop_failed_other [OF na, of c cp name current "t @ [version]" ?f ?cm w2] fin whole
    by simp
  have before_failed: "map_of f version = None"
    using loop_failed_other [OF nb, of c cp name current "[]" "[]" None w] b by simp
  have before_cm: "cm \<noteq> Some version"
    using loop_compatible_other [OF nb, of c cp name current "[]" "[]" None w] b by auto
  have cm_fail: "compatible \<noteq> Some version" if "\<not> success result"
    using loop_compatible_other [OF na, of c cp name current "t @ [version]" ?f ?cm w2]
      fin whole that before_cm by auto
  have cm_ok: "compatible = Some version \<or> (\<exists>later \<in> set after. compatible = Some later)"
    if ok: "success result"
  proof (cases "compatible = Some version")
    case True
    then show ?thesis by simp
  next
    case False
    have "fst (?loop after (t @ [version], ?f, ?cm) w2) = (tested, failed, compatible)"
      using fin whole by simp
    then have c: "compatible =
        (case filter (\<lambda>s. success (outcome s)) (walk c cp name current after w2) of
           [] \<Rightarrow> Some version | p # ps \<Rightarrow> Some (candidate (last (p # ps))))"
      using ok unfolding loop_as_walk Let_def by (auto split: list.splits)
    with False obtain p ps where
      g: "filter (\<lambda>s. success (outcome s)) (walk c cp name current after w2) = p # ps"
      and cl: "compatible = Some (candidate (last (p # ps)))"
      by (auto split: list.splits)
    from last_filter_in [OF g] have "last (p # ps) \<in> set (walk c cp name current after w2)"
      by simp
    then have "candidate (last (p # ps)) \<in> set (map candidate (walk c cp name current after w2))"
      by (simp del: last.simps)
    then have "candidate (last (p # ps)) \<in> set after"
      by (simp only: walk_candidates) simp
    with cl show ?thesis by blast
  qed
  have "version \<in> set tested" unfolding tested by simp
  moreover have "map_of failed version = Some (error_message result)" if "\<not> success result"
    using failed that by (simp add: update_conv')
  moreover have "version \<notin> fst ` set failed" if "success result"
  proof -
    from failed that before_failed have "map_of failed version = None" by simp
    then show ?thesis by (simp add: map_of_eq_None_iff)
  qed
  ultimately show ?thesis using st cm_fail cm_ok by auto
qed

theorem reset_result_is_discarded_witness:
  "\<not> fst (setup_test_environment stale_listing requests_only
            (snd (test_each_version stale_listing requests_only ''requests'' ''1.0.0''
                    [''1.0.0'', ''1.1.0''] ([], [], None) \<lparr>venv = None\<rparr>)))
   \<and> (\<exists>status.
         fst (find_compatible_update stale_listing requests_only ''requests'' \<lparr>venv = None\<rparr>)
           = Inr status
         \<and> ''1.2.0'' \<in> set (tested_versions status)
         \<and> map_of (failed_versions status) ''1.2.0'' = Some (Some ''Tests failed''))"
  using reset_result_is_discarded
          [OF demo_current _ stale_latest _ stale_range _ refl stale_reset_fails refl]
        stale_reset_fails
  unfolding stale_result by auto

section \<open>No test files\<close>

text \<open>
  Claim C10.  Where test discovery finds no test file, \<open>run_tests\<close> returns
  \<open>(False, "No test files found")\<close>.  So in a project without test files no status
  has a compatible version, and every candidate of the walk whose installation succeeded
  has the entry \<open>Tests failed\<close> in the failure mapping.
\<close>

theorem no_test_files_no_compatible_version:
  assumes "\<forall>w. find_test_files c w = []"
  shows "run_tests c w = ((False, ''No test files found''), w)
         \<and> (\<forall>status. fst (find_compatible_update c cp name w) = Inr status \<longrightarrow>
               compatible_version status = None)
         \<and> (\<forall>current latest versions status.
               dict_get cp name = Some current \<and> current \<noteq> []
               \<and> get_latest_version c name = Inr (Some latest) \<and> latest \<noteq> []
               \<and> get_version_range c name current latest = Inr versions
               \<and> fst (find_compatible_update c cp name w) = Inr status \<longrightarrow>
               (\<forall>s \<in> set (walk c cp name current versions w).
                  install_ok s \<longrightarrow>
                    map_of (failed_versions status) (candidate s) = Some (Some ''Tests failed'')))"
proof -
  have main: "compatible_version status = None
        \<and> (\<forall>s \<in> set (walk c cp name current versions w).
              install_ok s \<longrightarrow>
                map_of (failed_versions status) (candidate s) = Some (Some ''Tests failed''))"
    if h: "dict_get cp name = Some current" "current \<noteq> []"
      "get_latest_version c name = Inr (Some latest)" "latest \<noteq> []"
      "get_version_range c name current latest = Inr versions"
      and st: "fst (find_compatible_update c cp name w) = Inr status"
    for current latest versions status
  proof -
    let ?steps = "walk c cp name current versions w"
    have tr: "truthy (dict_get cp name)" using h(1,2) by (simp add: truthy_def)
    have fails: "\<not> success (outcome s)" if "s \<in> set ?steps" for s
      using walk_outcome [OF tr that] walk_without_tests [OF assms that]
      by (simp add: passes_def)
    then have bad: "filter (\<lambda>s. \<not> success (outcome s)) ?steps = ?steps"
      and good: "filter (\<lambda>s. success (outcome s)) ?steps = []"
      by (simp_all add: filter_empty_conv)
    obtain tested failed compatible where
      loop: "fst (test_each_version c cp name current versions ([], [], None) w)
               = (tested, failed, compatible)"
      by (cases "fst (test_each_version c cp name current versions ([], [], None) w)")
    from find_compatible_update_main [OF h, of w] st loop
    have "status = \<lparr>package_name = name, current_version = current, target_version = latest,
                     compatible_version = compatible, tested_versions = tested,
                     failed_versions = failed\<rparr>"
      by simp
    then have fv: "failed_versions status = failed" and cv: "compatible_version status = compatible"
      by simp_all
    from loop have f: "failed = fold (\<lambda>s f. AList.update (candidate s) (error_message (outcome s)) f)
                                   ?steps []"
      and cm: "compatible = None"
      unfolding loop_as_walk Let_def bad good by simp_all
    have dist: "distinct (map candidate ?steps)"
      using get_version_range_result [OF h(5)] by (simp add: walk_candidates)
    have "map_of failed (candidate s) = Some (Some ''Tests failed'')"
      if s: "s \<in> set ?steps" and i: "install_ok s" for s
    proof -
      have "error_message (outcome s) = Some ''Tests failed''"
        using walk_outcome [OF tr s] walk_without_tests [OF assms s] i by simp
      then show ?thesis unfolding f using note_failures_value [OF dist s] by simp
    qed
    then show ?thesis by (simp add: fv cv cm)
  qed
  have none: "compatible_version status = None"
    if st: "fst (find_compatible_update c cp name w) = Inr status" for status
    using find_compatible_update_cases [OF st] main st by blast
  show ?thesis using run_tests_without_files assms main none by blast
qed

theorem no_test_files_no_compatible_version_witness:
  "(\<forall>w. find_test_files no_tests w = [])
   \<and> run_tests no_tests \<lparr>venv = Some []\<rparr> = ((False, ''No test files found''), \<lparr>venv = Some []\<rparr>)
   \<and> (\<exists>status. fst (find_compatible_update no_tests requests_only ''requests''
                       \<lparr>venv = None\<rparr>) = Inr status
         \<and> compatible_version status = None
         \<and> map_of (failed_versions status) ''1.1.0'' = Some (Some ''Tests failed''))"
proof -
  note inst = no_test_files_no_compatible_version [OF no_tests_discovery]
  have "run_tests no_tests \<lparr>venv = Some []\<rparr>
          = ((False, ''No test files found''), \<lparr>venv = Some []\<rparr>)"
    by (rule inst [THEN conjunct1])
  moreover have "compatible_version
      \<lparr>package_name = ''requests'', current_version = ''1.0.0'',
       target_version = ''1.3.0'', compatible_version = None,
       tested_versions = [''1.1.0'', ''1.2.0'', ''1.3.0''],
       failed_versions = [(''1.1.0'', Some ''Tests failed''),
                          (''1.2.0'', Some ''Tests failed''),
                          (''1.3.0'', Some ''Tests failed'')]\<rparr> = None"
    by (rule inst [where cp = requests_only and name = "''requests''"
                     and w = "\<lparr>venv = None\<rparr>",
                   THEN conjunct2, THEN conjunct1, THEN spec, THEN mp, OF no_tests_find])
  ultimately show ?thesis using no_tests_discovery by (simp add: no_tests_find)
qed

end
